theory Spec2Isabelle
  imports Main "HOL-Library.Word"
begin

unbundle bit_operations_syntax

section \<open>Machine types and faults\<close>

type_synonym u8 = "8 word"
type_synonym u16 = "16 word"
type_synonym u32 = "32 word"
type_synonym u64 = "64 word"

text \<open>
  The ways an operation of the emulator core can stop instead of returning:
  a failed \<^verbatim>\<open>assert\<close>, an access outside a buffer, a read through a null chip pointer.
\<close>

datatype fault = AssertionFailed | OutOfBounds | NullPointer

section \<open>Cartridge (Cartridge.cpp)\<close>

text \<open>
  The fields of class \<^verbatim>\<open>Cartridge\<close>. The C arrays are lists; their fixed sizes
  (64 chip slots, 0x8000 bytes of rom, 16 block flags) are stated by \<open>cartridge_layout\<close>.
  A null chip pointer is \<open>None\<close>.
\<close>

record cartridge =
  gameLine :: bool
  exromLine :: bool
  chip :: "u8 list option list"
  chipStartAddress :: "u16 list"
  chipSize :: "u16 list"
  rom :: "u8 list"
  blendedIn :: "u8 list"
  lastBlendedIn :: u8

definition chip_fits :: "u8 list option \<Rightarrow> u16 \<Rightarrow> bool" where
  "chip_fits ch sz = (case ch of None \<Rightarrow> True | Some d \<Rightarrow> length d = unat sz)"

text \<open>
  The array sizes of the class declaration, and that every allocated chip buffer has the
  size recorded for it (\<^verbatim>\<open>malloc(size)\<close> in \<^verbatim>\<open>loadChip\<close> and \<^verbatim>\<open>loadFromBuffer\<close>).
\<close>

definition cartridge_layout :: "cartridge \<Rightarrow> bool" where
  "cartridge_layout c \<longleftrightarrow>
     length (chip c) = 64 \<and> length (chipStartAddress c) = 64 \<and> length (chipSize c) = 64 \<and>
     length (rom c) = 0x8000 \<and> length (blendedIn c) = 16 \<and>
     list_all2 chip_fits (chip c) (chipSize c)"

text \<open>The constructor \<^verbatim>\<open>Cartridge::Cartridge\<close>.\<close>

definition Cartridge_new :: cartridge where
  "Cartridge_new =
     \<lparr>gameLine = True, exromLine = True,
      chip = replicate 64 None,
      chipStartAddress = replicate 64 0,
      chipSize = replicate 64 0,
      rom = replicate 0x8000 0,
      blendedIn = replicate 16 0,
      lastBlendedIn = 255\<rparr>"

text \<open>
  \<^verbatim>\<open>memcpy(dst + off, src, n)\<close>: the destination with \<open>n\<close> bytes replaced from offset
  \<open>off\<close>. An offset before the destination, a range past its end, or a source shorter
  than \<open>n\<close> is undefined behaviour in C and a fault here.
\<close>

definition memcpy :: "u8 list \<Rightarrow> int \<Rightarrow> u8 list \<Rightarrow> nat \<Rightarrow> fault + u8 list" where
  "memcpy dst off src n =
     (if off < 0 \<or> int (length dst) < off + int n \<or> length src < n then Inl OutOfBounds
      else Inr (take (nat off) dst @ take n src @ drop (nat off + n) dst))"

text \<open>The loop \<^verbatim>\<open>for (unsigned i = lo; i < hi; i++) blendedIn[i] = v;\<close>\<close>

definition set_blocks :: "nat \<Rightarrow> nat \<Rightarrow> u8 \<Rightarrow> u8 list \<Rightarrow> u8 list" where
  "set_blocks lo hi v bl = fold (\<lambda>i b. b[i := v]) [lo..<hi] bl"

text \<open>
  \<^verbatim>\<open>Cartridge::bankIn\<close>. The debug output is left out: it carries no state.
  \<open>end_addr\<close> is the 16-bit sum, as in the source.
\<close>

definition bankIn :: "nat \<Rightarrow> cartridge \<Rightarrow> fault + cartridge" where
  "bankIn nr c =
     (if \<not> nr < 64 then Inl AssertionFailed
      else case chip c ! nr of
        None \<Rightarrow> Inl AssertionFailed
      | Some data \<Rightarrow>
          if nr = unat (lastBlendedIn c) then Inr c
          else
            let start = chipStartAddress c ! nr;
                sz = chipSize c ! nr;
                end_addr = start + sz
            in if \<not> (0xFFFF - uint start \<ge> uint sz) then Inl AssertionFailed
               else
                 (case memcpy (rom c) (uint start - 0x8000) data (unat sz) of
                    Inl e \<Rightarrow> Inl e
                  | Inr rom' \<Rightarrow>
                      Inr (c\<lparr>rom := rom',
                             blendedIn := set_blocks (unat (drop_bit 12 start))
                                            (unat (drop_bit 12 end_addr)) 1 (blendedIn c),
                             lastBlendedIn := of_nat nr\<rparr>)))"

text \<open>\<^verbatim>\<open>Cartridge::bankOut\<close>\<close>

definition bankOut :: "nat \<Rightarrow> cartridge \<Rightarrow> fault + cartridge" where
  "bankOut nr c =
     (if \<not> nr < 64 then Inl AssertionFailed
      else case chip c ! nr of
        None \<Rightarrow> Inl AssertionFailed
      | Some data \<Rightarrow>
          let start = chipStartAddress c ! nr;
              sz = chipSize c ! nr;
              end_addr = start + sz
          in if \<not> (0xFFFF - uint start \<ge> uint sz) then Inl AssertionFailed
             else Inr (c\<lparr>blendedIn := set_blocks (unat (drop_bit 12 start))
                                          (unat (drop_bit 12 end_addr)) 0 (blendedIn c)\<rparr>))"

text \<open>
  What a \<^verbatim>\<open>CRTContainer\<close> reports for one chip packet (\<^verbatim>\<open>getChipAddr\<close>,
  \<^verbatim>\<open>getChipSize\<close>, \<^verbatim>\<open>getChipData\<close>), after the conversion to the
  local variables of \<^verbatim>\<open>loadChip\<close>.
\<close>

record chip_packet =
  pkt_addr :: u16
  pkt_size :: u16
  pkt_data :: "u8 list"

text \<open>The two \<^verbatim>\<open>warn\<close> diagnostics of \<^verbatim>\<open>loadChip\<close>.\<close>

datatype diag = StartTooLow nat u16 | InvalidSize nat u16 u16

text \<open>
  \<^verbatim>\<open>Cartridge::loadChip\<close>. It returns the diagnostics it emitted and the cartridge.
  \<open>malloc_ok\<close> says whether \<^verbatim>\<open>malloc\<close> returned a buffer; when it did not, the
  old chip is already freed and the slot holds the null pointer.
\<close>

definition loadChip :: "nat \<Rightarrow> chip_packet \<Rightarrow> bool \<Rightarrow> cartridge \<Rightarrow> fault + (diag list \<times> cartridge)" where
  "loadChip nr p malloc_ok c =
     (if \<not> nr < 64 then Inl AssertionFailed
      else
        let start = pkt_addr p; sz = pkt_size p; data = pkt_data p
        in if start < 0x8000 then Inr ([StartTooLow nr start], c)
           else if 0xFFFF - uint start < uint sz then Inr ([InvalidSize nr start sz], c)
           else if \<not> malloc_ok then Inr ([], c\<lparr>chip := (chip c)[nr := None]\<rparr>)
           else if length data < unat sz then Inl OutOfBounds
           else Inr ([], c\<lparr>chip := (chip c)[nr := Some (take (unat sz) data)],
                            chipStartAddress := (chipStartAddress c)[nr := start],
                            chipSize := (chipSize c)[nr := sz]\<rparr>))"

subsection \<open>State persistence\<close>

text \<open>
  Modelled from the spec: the buffer helpers \<^verbatim>\<open>write8\<close>, \<^verbatim>\<open>write16\<close>,
  \<^verbatim>\<open>writeBlock\<close>, \<^verbatim>\<open>read8\<close>, \<^verbatim>\<open>read16\<close> and \<^verbatim>\<open>readBlock\<close> are declared
  outside the two source files. The spec gives fixed-width fields, 16-bit values as two
  bytes, low byte first. A writer appends to the bytes written so far; a reader takes
  bytes from the front of what is left and faults when too few are left.
\<close>

definition write8 :: "u8 list \<Rightarrow> u8 \<Rightarrow> u8 list" where
  "write8 buf v = buf @ [v]"

definition write16 :: "u8 list \<Rightarrow> u16 \<Rightarrow> u8 list" where
  "write16 buf v = write8 (write8 buf (ucast v)) (ucast (drop_bit 8 v))"

definition writeBlock :: "u8 list \<Rightarrow> u8 list \<Rightarrow> nat \<Rightarrow> fault + u8 list" where
  "writeBlock buf src n = (if length src < n then Inl OutOfBounds else Inr (buf @ take n src))"

definition read8 :: "u8 list \<Rightarrow> fault + (u8 \<times> u8 list)" where
  "read8 buf = (case buf of [] \<Rightarrow> Inl OutOfBounds | b # r \<Rightarrow> Inr (b, r))"

definition read16 :: "u8 list \<Rightarrow> fault + (u16 \<times> u8 list)" where
  "read16 buf =
     (case read8 buf of
        Inl e \<Rightarrow> Inl e
      | Inr (lo, b1) \<Rightarrow>
          (case read8 b1 of
             Inl e \<Rightarrow> Inl e
           | Inr (hi, b2) \<Rightarrow> Inr (push_bit 8 (ucast hi) OR ucast lo, b2)))"

definition readBlock :: "u8 list \<Rightarrow> nat \<Rightarrow> fault + (u8 list \<times> u8 list)" where
  "readBlock buf n = (if length buf < n then Inl OutOfBounds else Inr (take n buf, drop n buf))"

definition bool_to_u8 :: "bool \<Rightarrow> u8" where
  "bool_to_u8 b = (if b then 1 else 0)"

text \<open>\<^verbatim>\<open>Cartridge::stateSize\<close>, in 32-bit arithmetic.\<close>

definition stateSize :: "cartridge \<Rightarrow> u32" where
  "stateSize c =
     fold (\<lambda>i s. s + (4 + ucast (chipSize c ! i))) [0..<64] 2 + 0x8000 + 16 + 1"

text \<open>The chip loop of \<^verbatim>\<open>saveToBuffer\<close>, over the slot indices still to write.\<close>

fun save_chips :: "cartridge \<Rightarrow> nat list \<Rightarrow> u8 list \<Rightarrow> fault + u8 list" where
  "save_chips c [] buf = Inr buf"
| "save_chips c (i # js) buf =
     (let buf1 = write16 (write16 buf (chipStartAddress c ! i)) (chipSize c ! i)
      in if chipSize c ! i > 0 then
           (case chip c ! i of
              None \<Rightarrow> Inl NullPointer
            | Some d \<Rightarrow>
                (case writeBlock buf1 d (unat (chipSize c ! i)) of
                   Inl e \<Rightarrow> Inl e
                 | Inr buf2 \<Rightarrow> save_chips c js buf2))
         else save_chips c js buf1)"

text \<open>
  \<^verbatim>\<open>Cartridge::saveToBuffer\<close>: the bytes stored from the buffer position on entry to
  the position on return. The final \<^verbatim>\<open>assert\<close> compares their number with
  \<open>stateSize\<close>.
\<close>

definition saveToBuffer :: "cartridge \<Rightarrow> fault + u8 list" where
  "saveToBuffer c =
     (let buf = write8 (write8 [] (bool_to_u8 (gameLine c))) (bool_to_u8 (exromLine c))
      in case save_chips c [0..<64] buf of
        Inl e \<Rightarrow> Inl e
      | Inr buf1 \<Rightarrow>
          (case writeBlock buf1 (rom c) 0x8000 of
             Inl e \<Rightarrow> Inl e
           | Inr buf2 \<Rightarrow>
               (case writeBlock buf2 (blendedIn c) 16 of
                  Inl e \<Rightarrow> Inl e
                | Inr buf3 \<Rightarrow>
                    let buf4 = write8 buf3 (lastBlendedIn c)
                    in if int (length buf4) = uint (stateSize c) then Inr buf4
                       else Inl AssertionFailed)))"

text \<open>
  The chip loop of \<^verbatim>\<open>loadFromBuffer\<close>: what is left of the buffer, and the cartridge.
  The source does not test the result of \<^verbatim>\<open>malloc\<close> here; it is taken to succeed.
\<close>

fun load_chips :: "nat list \<Rightarrow> u8 list \<times> cartridge \<Rightarrow> fault + (u8 list \<times> cartridge)" where
  "load_chips [] s = Inr s"
| "load_chips (i # js) (buf, c) =
     (case read16 buf of
        Inl e \<Rightarrow> Inl e
      | Inr (start, b1) \<Rightarrow>
          (case read16 b1 of
             Inl e \<Rightarrow> Inl e
           | Inr (sz, b2) \<Rightarrow>
               let c1 = c\<lparr>chipStartAddress := (chipStartAddress c)[i := start],
                          chipSize := (chipSize c)[i := sz]\<rparr>
               in if sz > 0 then
                    (case readBlock b2 (unat sz) of
                       Inl e \<Rightarrow> Inl e
                     | Inr (d, b3) \<Rightarrow> load_chips js (b3, c1\<lparr>chip := (chip c1)[i := Some d]\<rparr>))
                  else load_chips js (b2, c1\<lparr>chip := (chip c1)[i := None]\<rparr>)))"

text \<open>
  \<^verbatim>\<open>Cartridge::loadFromBuffer\<close>: the bytes left after the state, and the cartridge.
  The final \<^verbatim>\<open>assert\<close> compares the number of bytes consumed with \<open>stateSize\<close> of the
  loaded cartridge.
\<close>

definition loadFromBuffer :: "u8 list \<Rightarrow> cartridge \<Rightarrow> fault + (u8 list \<times> cartridge)" where
  "loadFromBuffer buf c =
     (case read8 buf of
        Inl e \<Rightarrow> Inl e
      | Inr (g, b1) \<Rightarrow>
          (case read8 b1 of
             Inl e \<Rightarrow> Inl e
           | Inr (x, b2) \<Rightarrow>
               (case load_chips [0..<64] (b2, c\<lparr>gameLine := (g \<noteq> 0), exromLine := (x \<noteq> 0)\<rparr>) of
                  Inl e \<Rightarrow> Inl e
                | Inr (b3, c1) \<Rightarrow>
                    (case readBlock b3 0x8000 of
                       Inl e \<Rightarrow> Inl e
                     | Inr (r, b4) \<Rightarrow>
                         (case readBlock b4 16 of
                            Inl e \<Rightarrow> Inl e
                          | Inr (bl, b5) \<Rightarrow>
                              (case read8 b5 of
                                 Inl e \<Rightarrow> Inl e
                               | Inr (l, b6) \<Rightarrow>
                                   let c2 = c1\<lparr>rom := r, blendedIn := bl, lastBlendedIn := l\<rparr>
                                   in if int (length buf) - int (length b6) = uint (stateSize c2)
                                      then Inr (b6, c2)
                                      else Inl AssertionFailed))))))"

section \<open>VIA 6522 (VIA6522.cpp)\<close>

text \<open>
  The snapshot items of class \<^verbatim>\<open>VIA6522\<close>, which are all of its state. \<open>delay\<close> and
  \<open>feed\<close> are 64-bit masks.
\<close>

record via =
  pa :: u8
  ca1 :: bool
  ca2 :: bool
  ca2_out :: bool
  pb :: u8
  cb1 :: bool
  cb2 :: bool
  cb2_out :: bool
  ddra :: u8
  ddrb :: u8
  ora :: u8
  orb :: u8
  ira :: u8
  irb :: u8
  t1 :: u16
  t2 :: u16
  t1_latch_lo :: u8
  t1_latch_hi :: u8
  t2_latch_lo :: u8
  pb7toggle :: bool
  pb7timerOut :: bool
  pcr :: u8
  acr :: u8
  ier :: u8
  ifr :: u8
  sr :: u8
  delay :: u64
  feed :: u64

text \<open>
  The collaborators a VIA reaches through \<^verbatim>\<open>c64->floppy\<close>: the lines and sensors it
  queries, and the calls it makes outward, recorded in order (the latest call last).
  The collaborators' own code is outside the sources, so a call does not change what a
  later query returns.
\<close>

datatype irq_source = CPU_VIA | CPU_ATN

datatype call =
    PullDownIrqLine irq_source
  | ReleaseIrqLine irq_source
  | UpdateDevicePins u8 u8
  | SetZone u8
  | SetRedLED bool
  | SetRotating bool
  | MoveHeadUp
  | MoveHeadDown
  | Warn string

record drive =
  atnLine :: bool
  clockLine :: bool
  dataLine :: bool
  sync :: bool
  lightBarrier :: bool
  calls :: "call list"

definition call_out :: "call \<Rightarrow> drive \<Rightarrow> drive" where
  "call_out x d = d\<lparr>calls := calls d @ [x]\<rparr>"

datatype via_kind = Via1 | Via2

subsection \<open>Declarations of VIA6522.h\<close>

text \<open>
  Modelled from the spec: the header VIA6522.h, with the masks of the \<open>delay\<close> and
  \<open>feed\<close> pipeline, is outside the sources. The spec describes a pipeline in which
  every request bit moves one position per cycle and held bits are fed in again each
  cycle; so a request \<open>X0\<close> at bit \<open>k\<close> is \<open>X1\<close> at bit \<open>k + 1\<close> and \<open>X2\<close> at bit
  \<open>k + 2\<close>. \<open>VIAClearBits\<close> removes, after the shift, every position of a stage 0 and
  the position past the last request.
\<close>

definition VIACountA0 :: u64 where "VIACountA0 = push_bit 0 1"
definition VIACountA1 :: u64 where "VIACountA1 = push_bit 1 1"
definition VIACountB0 :: u64 where "VIACountB0 = push_bit 2 1"
definition VIACountB1 :: u64 where "VIACountB1 = push_bit 3 1"
definition VIAReloadA0 :: u64 where "VIAReloadA0 = push_bit 4 1"
definition VIAReloadA1 :: u64 where "VIAReloadA1 = push_bit 5 1"
definition VIAReloadA2 :: u64 where "VIAReloadA2 = push_bit 6 1"
definition VIAReloadB0 :: u64 where "VIAReloadB0 = push_bit 7 1"
definition VIAReloadB1 :: u64 where "VIAReloadB1 = push_bit 8 1"
definition VIAReloadB2 :: u64 where "VIAReloadB2 = push_bit 9 1"
definition VIAPostOneShotA0 :: u64 where "VIAPostOneShotA0 = push_bit 10 1"
definition VIAPostOneShotB0 :: u64 where "VIAPostOneShotB0 = push_bit 11 1"
definition VIAInterrupt0 :: u64 where "VIAInterrupt0 = push_bit 12 1"
definition VIAInterrupt1 :: u64 where "VIAInterrupt1 = push_bit 13 1"
definition VIASetCA2out0 :: u64 where "VIASetCA2out0 = push_bit 14 1"
definition VIASetCA2out1 :: u64 where "VIASetCA2out1 = push_bit 15 1"
definition VIAClearCA2out0 :: u64 where "VIAClearCA2out0 = push_bit 16 1"
definition VIAClearCA2out1 :: u64 where "VIAClearCA2out1 = push_bit 17 1"
definition VIASetCB2out0 :: u64 where "VIASetCB2out0 = push_bit 18 1"
definition VIASetCB2out1 :: u64 where "VIASetCB2out1 = push_bit 19 1"
definition VIAClearCB2out0 :: u64 where "VIAClearCB2out0 = push_bit 20 1"
definition VIAClearCB2out1 :: u64 where "VIAClearCB2out1 = push_bit 21 1"

definition VIAClearBits :: u64 where
  "VIAClearBits =
     NOT (push_bit 22 1 OR VIACountA0 OR VIACountB0 OR VIAReloadA0 OR VIAReloadB0 OR
          VIAPostOneShotA0 OR VIAPostOneShotB0 OR VIAInterrupt0 OR VIASetCA2out0 OR
          VIAClearCA2out0 OR VIASetCB2out0 OR VIAClearCB2out0)"

text \<open>
  Modelled from the spec: the byte macros \<^verbatim>\<open>HI_LO\<close>, \<^verbatim>\<open>LO_BYTE\<close>, \<^verbatim>\<open>HI_BYTE\<close>,
  \<^verbatim>\<open>SET_BIT\<close> and \<^verbatim>\<open>GET_BIT\<close> are defined outside the sources. As the sources use
  them, \<open>HI_LO hi lo\<close> is the 16-bit value of a high and a low byte, \<open>LO_BYTE\<close> and
  \<open>HI_BYTE\<close> are its two bytes, \<open>SET_BIT x n\<close> is \<open>x\<close> with bit \<open>n\<close> set and
  \<open>GET_BIT x n\<close> tells whether bit \<open>n\<close> of \<open>x\<close> is set.
\<close>

definition HI_LO :: "u8 \<Rightarrow> u8 \<Rightarrow> u16" where
  "HI_LO hi lo = push_bit 8 (ucast hi) OR ucast lo"

definition LO_BYTE :: "u16 \<Rightarrow> u8" where
  "LO_BYTE x = ucast x"

definition HI_BYTE :: "u16 \<Rightarrow> u8" where
  "HI_BYTE x = ucast (drop_bit 8 x)"

definition SET_BIT :: "u8 \<Rightarrow> nat \<Rightarrow> u8" where
  "SET_BIT x n = x OR push_bit n 1"

definition GET_BIT :: "u8 \<Rightarrow> nat \<Rightarrow> bool" where
  "GET_BIT x n \<longleftrightarrow> x AND push_bit n 1 \<noteq> 0"

text \<open>
  Modelled from the spec: the inline helpers of VIA6522.h are outside the sources.
  \<open>clearInterruptFlag_X\<close> clears the flag of source X in IFR and does nothing else; the
  positions of T1 (6), T2 (5), CB1 (4) and CA1 (1) are the ones the source files set,
  those of CB2 (3), the shift register (2) and CA2 (0) are the remaining ones of the 6522.
  \<open>freeRunMode1\<close> is ACR bit 6, the Timer 1 free-run bit of the 6522 (bit 7 is the
  PB7 output bit the sources test); \<open>inputLatchingEnabledA\<close> is ACR bit 0. The three
  \<open>shouldClear\<close> tests follow the decode table of \<^verbatim>\<open>peekORA\<close>: the flag is
  cleared in the PCR modes 0, 2, 4 and 5.
\<close>

definition clearInterruptFlag_T1 :: "via \<Rightarrow> via" where
  "clearInterruptFlag_T1 v = v\<lparr>ifr := ifr v AND NOT 0x40\<rparr>"

definition clearInterruptFlag_T2 :: "via \<Rightarrow> via" where
  "clearInterruptFlag_T2 v = v\<lparr>ifr := ifr v AND NOT 0x20\<rparr>"

definition clearInterruptFlag_CB1 :: "via \<Rightarrow> via" where
  "clearInterruptFlag_CB1 v = v\<lparr>ifr := ifr v AND NOT 0x10\<rparr>"

definition clearInterruptFlag_CB2 :: "via \<Rightarrow> via" where
  "clearInterruptFlag_CB2 v = v\<lparr>ifr := ifr v AND NOT 0x08\<rparr>"

definition clearInterruptFlag_SR :: "via \<Rightarrow> via" where
  "clearInterruptFlag_SR v = v\<lparr>ifr := ifr v AND NOT 0x04\<rparr>"

definition clearInterruptFlag_CA1 :: "via \<Rightarrow> via" where
  "clearInterruptFlag_CA1 v = v\<lparr>ifr := ifr v AND NOT 0x02\<rparr>"

definition clearInterruptFlag_CA2 :: "via \<Rightarrow> via" where
  "clearInterruptFlag_CA2 v = v\<lparr>ifr := ifr v AND NOT 0x01\<rparr>"

definition freeRunMode1 :: "via \<Rightarrow> bool" where
  "freeRunMode1 v \<longleftrightarrow> acr v AND 0x40 \<noteq> 0"

definition inputLatchingEnabledA :: "via \<Rightarrow> bool" where
  "inputLatchingEnabledA v \<longleftrightarrow> GET_BIT (acr v) 0"

definition clears_on_access :: "u8 \<Rightarrow> bool" where
  "clears_on_access m \<longleftrightarrow> m = 0 \<or> m = 2 \<or> m = 4 \<or> m = 5"

definition shouldClearCA2onRead :: "via \<Rightarrow> bool" where
  "shouldClearCA2onRead v = clears_on_access (drop_bit 1 (pcr v) AND 0x07)"

definition shouldClearCA2onWrite :: "via \<Rightarrow> bool" where
  "shouldClearCA2onWrite v = clears_on_access (drop_bit 1 (pcr v) AND 0x07)"

definition shouldClearCB2onWrite :: "via \<Rightarrow> bool" where
  "shouldClearCB2onWrite v = clears_on_access (drop_bit 5 (pcr v) AND 0x07)"

subsection \<open>Reset and execution\<close>

text \<open>
  \<^verbatim>\<open>VIA6522::reset\<close>.
  Modelled from the spec: \<^verbatim>\<open>VirtualComponent::reset\<close> is outside the sources; by the
  spec it clears every snapshot item to zero, which is the record below before the
  assignments of \<^verbatim>\<open>VIA6522::reset\<close>.
\<close>

definition via_cleared :: via where
  "via_cleared =
     \<lparr>pa = 0, ca1 = False, ca2 = False, ca2_out = False,
      pb = 0, cb1 = False, cb2 = False, cb2_out = False,
      ddra = 0, ddrb = 0, ora = 0, orb = 0, ira = 0, irb = 0,
      t1 = 0, t2 = 0, t1_latch_lo = 0, t1_latch_hi = 0, t2_latch_lo = 0,
      pb7toggle = False, pb7timerOut = False,
      pcr = 0, acr = 0, ier = 0, ifr = 0, sr = 0, delay = 0, feed = 0\<rparr>"

definition reset :: "via \<Rightarrow> via" where
  "reset v =
     (let v0 = via_cleared
      in v0\<lparr>t1 := 0x01AA, t2 := 0x01AA, t1_latch_hi := 0x01, t1_latch_lo := 0xAA,
             t2_latch_lo := 0xAA, feed := feed v0 OR (VIACountA0 OR VIACountB0)\<rparr>)"

text \<open>\<^verbatim>\<open>VIA6522::executeTimer1\<close>\<close>

definition executeTimer1 :: "via \<Rightarrow> via" where
  "executeTimer1 v0 =
     (let v1 = (if delay v0 AND VIAReloadA2 \<noteq> 0
                then v0\<lparr>t1 := HI_LO (t1_latch_hi v0) (t1_latch_lo v0)\<rparr> else v0);
          v2 = (if delay v1 AND VIACountA1 \<noteq> 0 then v1\<lparr>t1 := t1 v1 - 1\<rparr> else v1)
      in if t1 v2 = 0 then
           let v3 =
                 (if freeRunMode1 v2 then
                    (if feed v2 AND VIAPostOneShotA0 = 0
                     then v2\<lparr>ifr := SET_BIT (ifr v2) 6,
                             pb7toggle := \<not> pb7toggle v2,
                             delay := delay v2 OR VIAReloadA0\<rparr>
                     else v2)
                  else
                    (if feed v2 AND VIAPostOneShotA0 = 0
                     then v2\<lparr>ifr := SET_BIT (ifr v2) 6, pb7toggle := \<not> pb7toggle v2\<rparr>
                     else v2));
               v4 = v3\<lparr>feed := feed v3 OR VIAPostOneShotA0\<rparr>
           in if acr v4 AND 0x80 \<noteq> 0 then v4\<lparr>pb7timerOut := pb7toggle v4\<rparr> else v4
         else v2)"

text \<open>\<^verbatim>\<open>VIA6522::executeTimer2\<close>\<close>

definition executeTimer2 :: "via \<Rightarrow> via" where
  "executeTimer2 v0 =
     (let v1 = (if delay v0 AND VIACountB1 \<noteq> 0 then v0\<lparr>t2 := t2 v0 - 1\<rparr> else v0)
      in if t2 v1 = 0 then
           (if delay v1 AND VIAPostOneShotB0 = 0
            then v1\<lparr>ifr := SET_BIT (ifr v1) 5, feed := feed v1 OR VIAPostOneShotB0\<rparr>
            else v1)
         else v1)"

text \<open>\<^verbatim>\<open>VIA6522::execute\<close>: one clock cycle.\<close>

fun execute :: "via \<times> drive \<Rightarrow> via \<times> drive" where
  "execute (v0, d0) =
       (let v1 = executeTimer2 (executeTimer1 v0);
            v2 = (if ifr v1 AND ier v1 \<noteq> 0 then v1\<lparr>delay := delay v1 OR VIAInterrupt0\<rparr> else v1);
            d1 = (if delay v2 AND VIAInterrupt1 \<noteq> 0
                  then call_out (PullDownIrqLine CPU_VIA) d0 else d0);
            v3 = (if delay v2 AND VIASetCA2out1 \<noteq> 0 then v2\<lparr>ca2_out := True\<rparr> else v2);
            v4 = (if delay v3 AND VIAClearCA2out1 \<noteq> 0 then v3\<lparr>ca2_out := False\<rparr> else v3);
            v5 = (if delay v4 AND VIASetCB2out1 \<noteq> 0 then v4\<lparr>cb2_out := True\<rparr> else v4);
            v6 = (if delay v5 AND VIAClearCB2out1 \<noteq> 0 then v5\<lparr>cb2_out := False\<rparr> else v5)
        in (v6\<lparr>delay := (push_bit 1 (delay v6) AND VIAClearBits) OR feed v6\<rparr>, d1))"

text \<open>\<^verbatim>\<open>VIA6522::IRQ\<close>\<close>

fun IRQ :: "via \<times> drive \<Rightarrow> bool \<times> via \<times> drive" where
  "IRQ (v, d) =
       (if ifr v AND ier v \<noteq> 0 then (True, v, call_out (PullDownIrqLine CPU_VIA) d)
        else (False, v, call_out (ReleaseIrqLine CPU_VIA) d))"

text \<open>
  \<^verbatim>\<open>VIA6522::setCA1\<close> and \<^verbatim>\<open>VIA6522::setCB1\<close>: the active edge, selected by PCR
  bit 0 or bit 4, sets the CA1 or CB1 flag. (\<^verbatim>\<open>setCA2\<close> and \<^verbatim>\<open>setCB2\<close> are empty.)
\<close>

definition setCA1 :: "bool \<Rightarrow> via \<Rightarrow> via" where
  "setCA1 val v0 =
     (let pcr0 = (pcr v0 AND 0x01 \<noteq> 0);
          v1 = (if \<not> pcr0 \<and> ca1 v0 \<and> \<not> val then v0\<lparr>ifr := ifr v0 OR 0x02\<rparr> else v0);
          v2 = (if pcr0 \<and> \<not> ca1 v1 \<and> val then v1\<lparr>ifr := ifr v1 OR 0x02\<rparr> else v1)
      in v2\<lparr>ca1 := val\<rparr>)"

definition setCB1 :: "bool \<Rightarrow> via \<Rightarrow> via" where
  "setCB1 val v0 =
     (let pcr4 = (pcr v0 AND 0x10 \<noteq> 0);
          v1 = (if \<not> pcr4 \<and> cb1 v0 \<and> \<not> val then v0\<lparr>ifr := ifr v0 OR 0x10\<rparr> else v0);
          v2 = (if pcr4 \<and> \<not> cb1 v1 \<and> val then v1\<lparr>ifr := ifr v1 OR 0x10\<rparr> else v1)
      in v2\<lparr>cb1 := val\<rparr>)"

subsection \<open>Ports of VIA 1 and VIA 2\<close>

text \<open>
  \<open>portAinternal\<close> is \<open>ora\<close>, \<open>portAexternal\<close> is \<open>0xFF\<close> and \<open>portBinternal\<close> is
  \<open>orb\<close>, in both classes.
\<close>

definition portAexternal :: u8 where
  "portAexternal = 0xFF"

definition VIA1_portBexternal :: "drive \<Rightarrow> u8" where
  "VIA1_portBexternal d =
     ((if atnLine d then 0x00 else 0x80) OR
      (if clockLine d then 0x00 else 0x04) OR
      (if dataLine d then 0x00 else 0x01)) AND 0x9F"

definition VIA2_portBexternal :: "drive \<Rightarrow> u8" where
  "VIA2_portBexternal d =
     (if sync d then 0x00 else 0x80) OR (if lightBarrier d then 0x00 else 0x10) OR 0x6F"

text \<open>\<^verbatim>\<open>VIA1::updatePA\<close> and \<^verbatim>\<open>VIA2::updatePA\<close> have the same body.\<close>

definition updatePA :: "via_kind \<Rightarrow> via \<Rightarrow> via" where
  "updatePA k v = v\<lparr>pa := (ora v AND ddra v) OR (portAexternal AND NOT (ddra v))\<rparr>"

fun VIA1_updatePB :: "via \<times> drive \<Rightarrow> via \<times> drive" where
  "VIA1_updatePB (v, d) =
     (v\<lparr>pb := (orb v AND ddrb v) OR (VIA1_portBexternal d AND NOT (ddrb v))\<rparr>, d)"

text \<open>
  \<^verbatim>\<open>VIA2::updatePB\<close>. The source compares \<open>pb & 0x03\<close> with \<open>(oldPb + 1) & 0x03\<close>
  and \<open>(oldPb - 1) & 0x03\<close> in \<^verbatim>\<open>int\<close>; the two low bits are those of the 8-bit
  sum and difference.
\<close>

fun VIA2_updatePB :: "via \<times> drive \<Rightarrow> via \<times> drive" where
  "VIA2_updatePB (v0, d0) =
       (let oldPb = pb v0;
            v = v0\<lparr>pb := (orb v0 AND ddrb v0) OR (VIA2_portBexternal d0 AND NOT (ddrb v0))\<rparr>;
            d1 = (if pb v AND 0x60 \<noteq> oldPb AND 0x60
                  then call_out (SetZone (drop_bit 5 (pb v) AND 0x03)) d0 else d0);
            d2 = (if GET_BIT (pb v) 3 \<noteq> GET_BIT oldPb 3
                  then call_out (SetRedLED (GET_BIT (pb v) 3)) d1 else d1);
            d3 = (if GET_BIT (pb v) 2 \<noteq> GET_BIT oldPb 2
                  then call_out (SetRotating (GET_BIT (pb v) 2)) d2 else d2);
            d4 = (if pb v AND 0x03 \<noteq> oldPb AND 0x03 then
                    (if pb v AND 0x03 = (oldPb + 1) AND 0x03 then call_out MoveHeadUp d3
                     else if pb v AND 0x03 = (oldPb - 1) AND 0x03 then call_out MoveHeadDown d3
                     else call_out (Warn ''Unexpected stepper motor control sequence'') d3)
                  else d3)
        in (v, d4))"

definition updatePB :: "via_kind \<Rightarrow> via \<times> drive \<Rightarrow> via \<times> drive" where
  "updatePB k s = (case k of Via1 \<Rightarrow> VIA1_updatePB s | Via2 \<Rightarrow> VIA2_updatePB s)"

subsection \<open>Peek\<close>

text \<open>
  \<^verbatim>\<open>VIA6522::peekORA\<close> and \<^verbatim>\<open>VIA6522::peekORB\<close>; \<open>k\<close> is the class of the object,
  which selects \<open>updatePA\<close> and \<open>updatePB\<close>.
\<close>

fun peekORA :: "via_kind \<Rightarrow> via \<times> drive \<Rightarrow> u8 \<times> via \<times> drive" where
  "peekORA k (v0, d) =
       (let v1 = clearInterruptFlag_CA1 v0;
            m = drop_bit 1 (pcr v1) AND 0x07;
            v2 = (if m = 0 then clearInterruptFlag_CA2 v1
                  else if m = 1 then v1
                  else if m = 2 then clearInterruptFlag_CA2 v1
                  else if m = 3 then v1
                  else if m = 4 then
                    (let w = clearInterruptFlag_CA2 v1 in w\<lparr>delay := delay w OR VIAClearCA2out1\<rparr>)
                  else if m = 5 then
                    (let w = clearInterruptFlag_CA2 v1
                     in w\<lparr>delay := delay w OR (VIAClearCA2out1 OR VIASetCA2out0)\<rparr>)
                  else v1);
            v3 = updatePA k v2
        in (pa v3, v3, d))"

fun peekORB :: "via_kind \<Rightarrow> via \<times> drive \<Rightarrow> u8 \<times> via \<times> drive" where
  "peekORB k (v0, d) =
       (let v1 = clearInterruptFlag_CB1 v0;
            m = drop_bit 5 (pcr v1) AND 0x07;
            v2 = (if m = 0 then clearInterruptFlag_CB2 v1
                  else if m = 1 then v1
                  else if m = 2 then clearInterruptFlag_CB2 v1
                  else v1)
        in (case updatePB k (v2, d) of (v3, d3) \<Rightarrow> (pb v3, v3, d3)))"

text \<open>\<^verbatim>\<open>VIA6522::peek\<close>\<close>

fun VIA6522_peek :: "via_kind \<Rightarrow> u16 \<Rightarrow> via \<times> drive \<Rightarrow> fault + (u8 \<times> via \<times> drive)" where
  "VIA6522_peek k addr (v, d) =
       (if \<not> addr \<le> 0xF then Inl AssertionFailed
        else if addr = 0x0 then Inr (peekORB k (v, d))
        else if addr = 0x1 then Inr (peekORA k (v, d))
        else if addr = 0x2 then Inr (ddrb v, v, d)
        else if addr = 0x3 then Inr (ddra v, v, d)
        else if addr = 0x4 then (let w = clearInterruptFlag_T1 v in Inr (LO_BYTE (t1 w), w, d))
        else if addr = 0x5 then Inr (HI_BYTE (t1 v), v, d)
        else if addr = 0x6 then Inr (t1_latch_lo v, v, d)
        else if addr = 0x7 then Inr (t1_latch_hi v, v, d)
        else if addr = 0x8 then (let w = clearInterruptFlag_T2 v in Inr (LO_BYTE (t2 w), w, d))
        else if addr = 0x9 then Inr (HI_BYTE (t2 v), v, d)
        else if addr = 0xA then (let w = clearInterruptFlag_SR v in Inr (sr w, w, d))
        else if addr = 0xB then Inr (acr v, v, d)
        else if addr = 0xC then Inr (pcr v, v, d)
        else if addr = 0xD then
          (if ifr v AND 0x80 \<noteq> 0 \<or> ier v AND 0x80 \<noteq> 0 then Inl AssertionFailed
           else Inr (ifr v OR (if ifr v AND ier v \<noteq> 0 then 0x80 else 0x00), v, d))
        else if addr = 0xE then Inr (ier v OR 0x80, v, d)
        else
          (let w1 = clearInterruptFlag_CA1 v;
               w2 = (if shouldClearCA2onRead w1 then clearInterruptFlag_CA2 w1 else w1)
           in Inr (0, w2, d)))"

text \<open>\<^verbatim>\<open>VIA1::peek\<close>\<close>

fun VIA1_peek :: "u16 \<Rightarrow> via \<times> drive \<Rightarrow> fault + (u8 \<times> via \<times> drive)" where
  "VIA1_peek addr (v, d) =
       (if addr = 0x1 \<or> addr = 0xF
        then VIA6522_peek Via1 addr (v, call_out (ReleaseIrqLine CPU_ATN) d)
        else VIA6522_peek Via1 addr (v, d))"

text \<open>The value \<^verbatim>\<open>VIA2::peek\<close> and \<^verbatim>\<open>VIA2::read\<close> return for port A.\<close>

fun VIA2_portA_value :: "via \<times> drive \<Rightarrow> u8 \<times> via \<times> drive" where
  "VIA2_portA_value (v, d) =
       (if inputLatchingEnabledA v
        then ((ddra v AND ora v) OR (NOT (ddra v) AND ira v), v, d)
        else (0, v, call_out (Warn ''INPUT LATCHING OF VIA2 IS DISABLED!'') d))"

text \<open>\<^verbatim>\<open>VIA2::peek\<close>\<close>

definition VIA2_peek :: "u16 \<Rightarrow> via \<times> drive \<Rightarrow> fault + (u8 \<times> via \<times> drive)" where
  "VIA2_peek addr s =
     (if addr = 0x0 then
        (case VIA6522_peek Via2 addr s of
           Inl e \<Rightarrow> Inl e
         | Inr (r, s1) \<Rightarrow> (case VIA2_updatePB s1 of (v2, d2) \<Rightarrow> Inr (pb v2, v2, d2)))
      else if addr = 0x1 \<or> addr = 0xF then
        (case VIA6522_peek Via2 addr s of
           Inl e \<Rightarrow> Inl e
         | Inr (r, s1) \<Rightarrow> Inr (VIA2_portA_value s1))
      else VIA6522_peek Via2 addr s)"

text \<open>The virtual call \<^verbatim>\<open>peek(addr)\<close> on an object of class \<open>k\<close>.\<close>

definition peek :: "via_kind \<Rightarrow> u16 \<Rightarrow> via \<times> drive \<Rightarrow> fault + (u8 \<times> via \<times> drive)" where
  "peek k addr s = (case k of Via1 \<Rightarrow> VIA1_peek addr s | Via2 \<Rightarrow> VIA2_peek addr s)"

subsection \<open>Read\<close>

text \<open>\<^verbatim>\<open>VIA6522::read\<close>; its default branch is the call \<^verbatim>\<open>peek(addr)\<close>.\<close>

fun VIA6522_read :: "via_kind \<Rightarrow> u16 \<Rightarrow> via \<times> drive \<Rightarrow> fault + (u8 \<times> via \<times> drive)" where
  "VIA6522_read k addr (v, d) =
       (if \<not> addr \<le> 0xF then Inl AssertionFailed
        else if addr = 0x4 then Inr (LO_BYTE (t1 v), v, d)
        else if addr = 0x8 then Inr (LO_BYTE (t2 v), v, d)
        else if addr = 0xA \<or> addr = 0xB \<or> addr = 0xC then Inr (0, v, d)
        else if addr = 0xD then
          (let ioD = ifr v AND 0x7F;
               irq = (if ifr v AND ier v \<noteq> 0 then 0x80 else 0x00)
           in Inr (ioD OR irq, v, d))
        else peek k addr (v, d))"

text \<open>\<^verbatim>\<open>VIA1::read\<close>\<close>

fun VIA1_read :: "u16 \<Rightarrow> via \<times> drive \<Rightarrow> fault + (u8 \<times> via \<times> drive)" where
  "VIA1_read addr (v, d) =
       (if addr = 0x0
        then Inr ((orb v AND ddrb v) OR (VIA1_portBexternal d AND NOT (ddrb v)), v, d)
        else if addr = 0x1 \<or> addr = 0xF
        then Inr ((ora v AND ddra v) OR (portAexternal AND NOT (ddra v)), v, d)
        else VIA6522_read Via1 addr (v, d))"

text \<open>\<^verbatim>\<open>VIA2::read\<close>; its default branch is the call \<^verbatim>\<open>VIA6522::peek(addr)\<close>.\<close>

fun VIA2_read :: "u16 \<Rightarrow> via \<times> drive \<Rightarrow> fault + (u8 \<times> via \<times> drive)" where
  "VIA2_read addr (v, d) =
       (if addr = 0x0
        then Inr ((orb v AND ddrb v) OR (VIA2_portBexternal d AND NOT (ddrb v)), v, d)
        else if addr = 0x1 \<or> addr = 0xF
        then Inr (VIA2_portA_value (v, d))
        else VIA6522_peek Via2 addr (v, d))"

text \<open>The virtual call \<^verbatim>\<open>read(addr)\<close> on an object of class \<open>k\<close>.\<close>

definition read :: "via_kind \<Rightarrow> u16 \<Rightarrow> via \<times> drive \<Rightarrow> fault + (u8 \<times> via \<times> drive)" where
  "read k addr s = (case k of Via1 \<Rightarrow> VIA1_read addr s | Via2 \<Rightarrow> VIA2_read addr s)"

subsection \<open>Poke\<close>

text \<open>\<^verbatim>\<open>VIA6522::poke\<close>\<close>

fun VIA6522_poke :: "via_kind \<Rightarrow> u16 \<Rightarrow> u8 \<Rightarrow> via \<times> drive \<Rightarrow> fault + (via \<times> drive)" where
  "VIA6522_poke k addr val (v, d) =
       (if \<not> addr \<le> 0x0F then Inl AssertionFailed
        else if addr = 0x0 then
          (let w1 = clearInterruptFlag_CB1 v;
               w2 = (if shouldClearCB2onWrite w1 then clearInterruptFlag_CB2 w1 else w1)
           in Inr (w2, d))
        else if addr = 0x1 then
          (let w1 = clearInterruptFlag_CA1 v;
               w2 = (if shouldClearCA2onWrite w1 then clearInterruptFlag_CA2 w1 else w1)
           in Inr (w2, d))
        else if addr = 0x2 then Inr (updatePB k (v\<lparr>ddrb := val\<rparr>, d))
        else if addr = 0x3 then Inr (updatePA k (v\<lparr>ddra := val\<rparr>), d)
        else if addr = 0x4 then Inr (v\<lparr>t1_latch_lo := val\<rparr>, d)
        else if addr = 0x5 then
          (let w1 = v\<lparr>t1_latch_hi := val\<rparr>;
               w2 = w1\<lparr>t1 := HI_LO (t1_latch_hi w1) (t1_latch_lo w1)\<rparr>;
               w3 = clearInterruptFlag_T1 w2;
               w4 = w3\<lparr>feed := feed w3 AND NOT VIAPostOneShotA0\<rparr>
           in Inr (w4\<lparr>delay := delay w4 AND NOT VIACountA1\<rparr>, d))
        else if addr = 0x6 then Inr (v\<lparr>t1_latch_lo := val\<rparr>, d)
        else if addr = 0x7 then Inr (v\<lparr>t1_latch_hi := val\<rparr>, d)
        else if addr = 0x8 then
          Inr (clearInterruptFlag_T2 (v\<lparr>t2_latch_lo := val\<rparr>),
               call_out (ReleaseIrqLine CPU_VIA) d)
        else if addr = 0x9 then
          (let w1 = v\<lparr>t2 := HI_LO val (t2_latch_lo v)\<rparr>;
               w2 = clearInterruptFlag_T2 w1
           in Inr (w2\<lparr>feed := feed w2 AND NOT VIAPostOneShotB0\<rparr>, d))
        else if addr = 0xA then
          (let w = clearInterruptFlag_SR v in Inr (w\<lparr>sr := val\<rparr>, d))
        else if addr = 0xB then
          (let w1 = v\<lparr>acr := val\<rparr>;
               w2 = (if acr w1 AND 0x20 \<noteq> 0
                     then w1\<lparr>delay := delay w1 AND NOT VIACountB0,
                             feed := feed w1 AND NOT VIACountB0\<rparr>
                     else w1\<lparr>delay := delay w1 OR VIACountB0,
                             feed := feed w1 OR VIACountB0\<rparr>);
               w3 = (if acr w2 AND 0x80 \<noteq> 0 then w2\<lparr>pb7timerOut := pb7toggle w2\<rparr> else w2)
           in Inr (w3, d))
        else if addr = 0xC then Inr (v\<lparr>pcr := val\<rparr>, d)
        else if addr = 0xD then
          (case IRQ (v\<lparr>ifr := ifr v AND NOT val\<rparr>, d) of (r, s1) \<Rightarrow> Inr s1)
        else if addr = 0xE then
          (let w1 = (if val AND 0x80 \<noteq> 0 then v\<lparr>ier := ier v OR val\<rparr>
                     else v\<lparr>ier := ier v AND NOT val\<rparr>);
               w2 = w1\<lparr>ier := ier w1 AND 0x7F\<rparr>
           in case IRQ (w2, d) of (r, s1) \<Rightarrow> Inr s1)
        else
          (let w1 = clearInterruptFlag_CA1 v;
               w2 = (if shouldClearCA2onWrite w1 then clearInterruptFlag_CA2 w1 else w1)
           in Inr (w2, d)))"

text \<open>\<^verbatim>\<open>VIA1::poke\<close>\<close>

fun VIA1_poke :: "u16 \<Rightarrow> u8 \<Rightarrow> via \<times> drive \<Rightarrow> fault + (via \<times> drive)" where
  "VIA1_poke addr val (v, d) =
     (if addr = 0x0 then
        (case VIA6522_poke Via1 addr val (v, d) of
           Inl e \<Rightarrow> Inl e
         | Inr (v1, d1) \<Rightarrow>
             (case VIA1_updatePB (v1\<lparr>orb := val\<rparr>, d1) of
                (v2, d2) \<Rightarrow> Inr (v2, call_out (UpdateDevicePins (orb v2) (ddrb v2)) d2)))
      else if addr = 0x1 \<or> addr = 0xF then
        (case VIA6522_poke Via1 addr val (v, d) of
           Inl e \<Rightarrow> Inl e
         | Inr (v1, d1) \<Rightarrow> Inr (updatePA Via1 (v1\<lparr>ora := val\<rparr>), d1))
      else if addr = 0x2 then
        (case VIA1_updatePB (v\<lparr>ddrb := val\<rparr>, d) of
           (v2, d2) \<Rightarrow> Inr (v2, call_out (UpdateDevicePins (orb v2) (ddrb v2)) d2))
      else VIA6522_poke Via1 addr val (v, d))"

text \<open>\<^verbatim>\<open>VIA2::poke\<close>. The debug output is left out.\<close>

fun VIA2_poke :: "u16 \<Rightarrow> u8 \<Rightarrow> via \<times> drive \<Rightarrow> fault + (via \<times> drive)" where
  "VIA2_poke addr val (v, d) =
     (if addr = 0x0 then
        (case VIA6522_poke Via2 addr val (v, d) of
           Inl e \<Rightarrow> Inl e
         | Inr (v1, d1) \<Rightarrow> Inr (VIA2_updatePB (v1\<lparr>orb := val\<rparr>, d1)))
      else if addr = 0x1 \<or> addr = 0xF then
        (case VIA6522_poke Via2 addr val (v, d) of
           Inl e \<Rightarrow> Inl e
         | Inr (v1, d1) \<Rightarrow> Inr (updatePA Via2 (v1\<lparr>ora := val\<rparr>), d1))
      else if addr = 0x3 then Inr (v\<lparr>ddra := val\<rparr>, d)
      else if addr = 0xC then Inr (v\<lparr>pcr := val\<rparr>, d)
      else VIA6522_poke Via2 addr val (v, d))"

text \<open>The virtual call \<^verbatim>\<open>poke(addr, value)\<close> on an object of class \<open>k\<close>.\<close>

definition poke :: "via_kind \<Rightarrow> u16 \<Rightarrow> u8 \<Rightarrow> via \<times> drive \<Rightarrow> fault + (via \<times> drive)" where
  "poke k addr val s = (case k of Via1 \<Rightarrow> VIA1_poke addr val s | Via2 \<Rightarrow> VIA2_poke addr val s)"

subsection \<open>Sequences of accesses and cycles\<close>

text \<open>A list of pokes in order, stopping at the first fault.\<close>

fun pokes :: "via_kind \<Rightarrow> (u16 \<times> u8) list \<Rightarrow> via \<times> drive \<Rightarrow> fault + (via \<times> drive)" where
  "pokes k [] s = Inr s"
| "pokes k ((addr, val) # ps) s =
     (case poke k addr val s of Inl e \<Rightarrow> Inl e | Inr s1 \<Rightarrow> pokes k ps s1)"

text \<open>\<open>n\<close> calls of \<^verbatim>\<open>execute\<close>.\<close>

fun cycles :: "nat \<Rightarrow> via \<times> drive \<Rightarrow> via \<times> drive" where
  "cycles 0 s = s"
| "cycles (Suc n) s = cycles n (execute s)"

section \<open>Auxiliary notions and example inputs\<close>

text \<open>The 4KB block of an address: \<^verbatim>\<open>a >> 12\<close>.\<close>

definition block_of :: "nat \<Rightarrow> nat" where
  "block_of a = a div 4096"

text \<open>
  The placement \<^verbatim>\<open>loadChip\<close> accepts for a chip: it starts in the window from 0x8000
  and does not run past 0xFFFF.
\<close>

definition chip_placed :: "cartridge \<Rightarrow> nat \<Rightarrow> bool" where
  "chip_placed c nr \<longleftrightarrow>
     0x8000 \<le> unat (chipStartAddress c ! nr) \<and>
     unat (chipStartAddress c ! nr) + unat (chipSize c ! nr) \<le> 0xFFFF"

text \<open>
  A cartridge with one chip of 6KB at 0x8000, as \<^verbatim>\<open>loadChip\<close> leaves it after the
  constructor; and the same cartridge after \<^verbatim>\<open>bankIn(0)\<close>.
\<close>

definition cart_partial :: cartridge where
  "cart_partial = Cartridge_new
     \<lparr>chip := (replicate 64 None)[0 := Some (replicate 0x1800 0xEA)],
      chipStartAddress := (replicate 64 0)[0 := 0x8000],
      chipSize := (replicate 64 0)[0 := 0x1800]\<rparr>"

definition cart_banked :: cartridge where
  "cart_banked = cart_partial
     \<lparr>rom := replicate 0x1800 0xEA @ replicate 0x6800 0,
      blendedIn := (replicate 16 0)[8 := 1],
      lastBlendedIn := 0\<rparr>"

text \<open>
  The serialized form: the bytes of a 16-bit value, the bytes of chip slot \<open>i\<close>, and the
  bytes of the whole cartridge state in the order \<^verbatim>\<open>saveToBuffer\<close> writes them.
  \<open>copy_slot c i\<close> is what one pass of the loop of \<^verbatim>\<open>loadFromBuffer\<close> stores when
  it reads the bytes of slot \<open>i\<close> of \<open>c\<close>.
\<close>

definition bytes16 :: "u16 \<Rightarrow> u8 list" where
  "bytes16 v = [ucast v, ucast (drop_bit 8 v)]"

definition slot_bytes :: "cartridge \<Rightarrow> nat \<Rightarrow> u8 list" where
  "slot_bytes c i =
     bytes16 (chipStartAddress c ! i) @ bytes16 (chipSize c ! i) @
     (case chip c ! i of None \<Rightarrow> [] | Some d \<Rightarrow> d)"

definition state_bytes :: "cartridge \<Rightarrow> u8 list" where
  "state_bytes c =
     [bool_to_u8 (gameLine c), bool_to_u8 (exromLine c)] @
     concat (map (slot_bytes c) [0..<64]) @ rom c @ blendedIn c @ [lastBlendedIn c]"

definition copy_slot :: "cartridge \<Rightarrow> nat \<Rightarrow> cartridge \<Rightarrow> cartridge" where
  "copy_slot c i c0 =
     c0\<lparr>chipStartAddress := (chipStartAddress c0)[i := chipStartAddress c ! i],
        chipSize := (chipSize c0)[i := chipSize c ! i],
        chip := (chip c0)[i := chip c ! i]\<rparr>"

text \<open>
  A chip buffer is present exactly when the recorded size is positive: per slot (with the
  buffer's length), and for the 64 slots.
\<close>

definition slot_ok :: "cartridge \<Rightarrow> nat \<Rightarrow> bool" where
  "slot_ok c i \<longleftrightarrow>
     (chip c ! i \<noteq> None) = (chipSize c ! i > 0) \<and> chip_fits (chip c ! i) (chipSize c ! i)"

definition chips_match_sizes :: "cartridge \<Rightarrow> bool" where
  "chips_match_sizes c \<longleftrightarrow> (\<forall>i < 64. (chip c ! i \<noteq> None) = (0 < chipSize c ! i))"

section \<open>Example inputs for the VIA\<close>

text \<open>Collaborators with every line and sensor high and no call made yet.\<close>

definition drive0 :: drive where
  "drive0 = \<lparr>atnLine = True, clockLine = True, dataLine = True, sync = True,
              lightBarrier = True, calls = []\<rparr>"

text \<open>
  The VIA of the timer scenarios: the cleared VIA with T1 high latch 0 and T2 low latch
  0xAA as after reset and a write of 0 to the T1 high latch, and with the given ACR, T1
  low latch, T1, IFR, \<open>pb7toggle\<close>, \<open>delay\<close>, \<open>feed\<close> and T2.
\<close>

definition timer_via :: "u8 \<Rightarrow> u8 \<Rightarrow> u16 \<Rightarrow> u8 \<Rightarrow> bool \<Rightarrow> u64 \<Rightarrow> u64 \<Rightarrow> u16 \<Rightarrow> via" where
  "timer_via m lo a b c x y f =
     via_cleared\<lparr>t1 := a, t2 := f, t1_latch_lo := lo, t1_latch_hi := 0, t2_latch_lo := 0xAA,
                 pb7toggle := c, acr := m, ifr := b, delay := x, feed := y\<rparr>"

text \<open>
  The value port B of a VIA 2 takes when \<open>val\<close> is written to ORB: \<open>updatePB\<close> with
  \<open>orb = val\<close>. And the warning of \<^verbatim>\<open>VIA2::updatePB\<close>.
\<close>

definition VIA2_new_pb :: "via \<Rightarrow> drive \<Rightarrow> u8 \<Rightarrow> u8" where
  "VIA2_new_pb v d val = (val AND ddrb v) OR (VIA2_portBexternal d AND NOT (ddrb v))"

definition stepper_warning :: call where
  "stepper_warning = Warn ''Unexpected stepper motor control sequence''"

text \<open>
  A VIA with all port B lines set to output and port B at 0; a VIA with the T1 and T2
  flags set and the CA1 and CA2 interrupts enabled.
\<close>

definition stepper_via :: via where
  "stepper_via = via_cleared\<lparr>ddrb := 0xFF\<rparr>"

definition flags_via :: via where
  "flags_via = via_cleared\<lparr>ier := 0x03, ifr := 0x60\<rparr>"

text \<open>
  Bit 7 of the stored IFR and of the stored IER is 0. (\<^verbatim>\<open>peek\<close> computes bit 7 of
  the value it returns for IFR and sets it in the value it returns for IER; neither is
  stored.)
\<close>

definition flags_ok :: "via \<Rightarrow> bool" where
  "flags_ok v \<longleftrightarrow> ifr v AND 0x80 = 0 \<and> ier v AND 0x80 = 0"

section \<open>Cartridge: bank switching\<close>

subsection \<open>The block loop and the address arithmetic\<close>

lemma length_set_blocks: "length (set_blocks lo hi v bl) = length bl"
proof -
  have "length (fold (\<lambda>i b. b[i := v]) js bl) = length bl" for js
    by (induction js arbitrary: bl) auto
  then show ?thesis by (simp add: set_blocks_def)
qed

lemma nth_set_blocks:
  "i < length bl \<Longrightarrow> set_blocks lo hi v bl ! i = (if lo \<le> i \<and> i < hi then v else bl ! i)"
proof (induction hi)
  case 0
  then show ?case by (simp add: set_blocks_def)
next
  case (Suc hi)
  show ?case
  proof (cases "lo \<le> hi")
    case True
    then have step: "set_blocks lo (Suc hi) v bl = (set_blocks lo hi v bl)[hi := v]"
      by (simp add: set_blocks_def)
    have len: "i < length (set_blocks lo hi v bl)"
      using Suc.prems by (simp add: length_set_blocks)
    show ?thesis
    proof (cases "i = hi")
      case True
      with len \<open>lo \<le> hi\<close> show ?thesis by (simp add: step)
    next
      case False
      with Suc show ?thesis by (simp add: step)
    qed
  next
    case False
    then show ?thesis by (auto simp: set_blocks_def)
  qed
qed

lemma unat_block: "unat (drop_bit 12 (x :: u16)) = block_of (unat x)"
  by (simp add: drop_bit_eq_div unat_div block_of_def)

lemma assert_fits_iff:
  "(uint (sz :: u16) \<le> 0xFFFF - uint (start :: u16)) \<longleftrightarrow> unat start + unat sz \<le> 0xFFFF"
  unfolding uint_nat by linarith

lemma unat_end_addr:
  assumes "unat (start :: u16) + unat (sz :: u16) \<le> 0xFFFF"
  shows "unat (start + sz) = unat start + unat sz"
proof -
  from assms have "unat start + unat sz < 2 ^ LENGTH(16)" by simp
  then show ?thesis by (simp only: unat_add_lem)
qed

lemma layout_chip_length:
  assumes "cartridge_layout c" "nr < 64" "chip c ! nr = Some data"
  shows "length data = unat (chipSize c ! nr)"
proof -
  from assms(1) have "list_all2 chip_fits (chip c) (chipSize c)" and "length (chip c) = 64"
    by (simp_all add: cartridge_layout_def)
  with assms(2) have "chip_fits (chip c ! nr) (chipSize c ! nr)"
    by (simp add: list_all2_nthD)
  with assms(3) show ?thesis by (simp add: chip_fits_def)
qed

lemma memcpy_ok:
  assumes "0 \<le> off" "nat off + n \<le> length dst" "length src = n"
  shows "memcpy dst off src n = Inr (take (nat off) dst @ src @ drop (nat off + n) dst)"
proof -
  from assms(1,2) have "\<not> int (length dst) < off + int n" by linarith
  with assms(1,3) show ?thesis by (simp add: memcpy_def)
qed

lemma nth_splice:
  assumes "off + length d \<le> length xs" "a < length xs"
  shows "(take off xs @ d @ drop (off + length d) xs) ! a =
         (if off \<le> a \<and> a < off + length d then d ! (a - off) else xs ! a)"
  using assms by (auto simp: nth_append min_def)

subsection \<open>What \<^verbatim>\<open>bankOut\<close> and \<^verbatim>\<open>bankIn\<close> return\<close>

lemma bankOut_result:
  assumes "nr < 64" "chip c ! nr = Some data"
    and "unat (chipStartAddress c ! nr) + unat (chipSize c ! nr) \<le> 0xFFFF"
  shows "bankOut nr c =
    Inr (c\<lparr>blendedIn := set_blocks (block_of (unat (chipStartAddress c ! nr)))
        (block_of (unat (chipStartAddress c ! nr) + unat (chipSize c ! nr))) 0 (blendedIn c)\<rparr>)"
  using assms
  by (simp add: bankOut_def Let_def assert_fits_iff unat_block unat_end_addr)

lemma bankIn_result:
  assumes "cartridge_layout c" "nr < 64" "chip c ! nr = Some data" "chip_placed c nr"
    and "nr \<noteq> unat (lastBlendedIn c)"
  shows "bankIn nr c =
    Inr (c\<lparr>rom := take (unat (chipStartAddress c ! nr) - 0x8000) (rom c) @ data @
                 drop (unat (chipStartAddress c ! nr) - 0x8000 + unat (chipSize c ! nr)) (rom c),
           blendedIn := set_blocks (block_of (unat (chipStartAddress c ! nr)))
             (block_of (unat (chipStartAddress c ! nr) + unat (chipSize c ! nr))) 1 (blendedIn c),
           lastBlendedIn := of_nat nr\<rparr>)"
proof -
  let ?start = "chipStartAddress c ! nr" and ?sz = "chipSize c ! nr"
  have len: "length data = unat ?sz"
    using assms(1-3) by (rule layout_chip_length)
  have rom: "length (rom c) = 0x8000"
    using assms(1) by (simp add: cartridge_layout_def)
  have lo: "0x8000 \<le> unat ?start" and hi: "unat ?start + unat ?sz \<le> 0xFFFF"
    using assms(4) by (simp_all add: chip_placed_def)
  have off: "nat (uint ?start - 0x8000) = unat ?start - 0x8000"
    unfolding uint_nat by linarith
  have nonneg: "0 \<le> uint ?start - 0x8000"
    using lo unfolding uint_nat by linarith
  have fits: "nat (uint ?start - 0x8000) + unat ?sz \<le> length (rom c)"
    unfolding off rom using lo hi by linarith
  have cpy: "memcpy (rom c) (uint ?start - 0x8000) data (unat ?sz) =
      Inr (take (unat ?start - 0x8000) (rom c) @ data @
           drop (unat ?start - 0x8000 + unat ?sz) (rom c))"
    using memcpy_ok [OF nonneg fits len] by (simp only: off)
  show ?thesis
    using assms(2,3,5) hi
    by (simp add: bankIn_def Let_def assert_fits_iff cpy unat_block unat_end_addr)
qed

lemma bankOut_flags:
  assumes "nr < 64" and "chip c ! nr = Some data"
    and "unat (chipStartAddress c ! nr) + unat (chipSize c ! nr) \<le> 0xFFFF"
    and "length (blendedIn c) = 16"
  shows "\<exists>c2. bankOut nr c = Inr c2 \<and>
      length (blendedIn c2) = 16 \<and>
      (\<forall>i < 16. blendedIn c2 ! i =
          (if block_of (unat (chipStartAddress c ! nr)) \<le> i \<and>
              i < block_of (unat (chipStartAddress c ! nr) + unat (chipSize c ! nr))
           then 0 else blendedIn c ! i)) \<and>
      rom c2 = rom c \<and> lastBlendedIn c2 = lastBlendedIn c \<and>
      c2 = c\<lparr>blendedIn := blendedIn c2\<rparr>"
  unfolding bankOut_result [OF assms(1-3)]
  by (simp add: length_set_blocks nth_set_blocks assms(4))

lemma bankIn_frame:
  assumes "cartridge_layout c" and "nr < 64" and "chip c ! nr = Some data"
    and "chip_placed c nr"
  shows "\<exists>c1. bankIn nr c = Inr c1 \<and> chip c1 = chip c \<and>
      chipStartAddress c1 = chipStartAddress c \<and> chipSize c1 = chipSize c \<and>
      length (blendedIn c1) = 16 \<and>
      (\<forall>i < 16. \<not> (block_of (unat (chipStartAddress c ! nr)) \<le> i \<and>
              i < block_of (unat (chipStartAddress c ! nr) + unat (chipSize c ! nr)))
           \<longrightarrow> blendedIn c1 ! i = blendedIn c ! i)"
proof (cases "nr = unat (lastBlendedIn c)")
  case True
  with assms(2,3) have "bankIn nr c = Inr c" by (simp add: bankIn_def)
  moreover have "length (blendedIn c) = 16"
    using assms(1) by (simp add: cartridge_layout_def)
  ultimately show ?thesis by simp
next
  case False
  have bl: "length (blendedIn c) = 16"
    using assms(1) by (simp add: cartridge_layout_def)
  show ?thesis
    unfolding bankIn_result [OF assms False]
    by (simp add: length_set_blocks nth_set_blocks bl)
qed

subsection \<open>The example cartridges\<close>

lemma cart_partial_loaded:
  "loadChip 0 \<lparr>pkt_addr = 0x8000, pkt_size = 0x1800, pkt_data = replicate 0x1800 0xEA\<rparr> True Cartridge_new
     = Inr ([], cart_partial)"
  by (simp add: loadChip_def cart_partial_def Cartridge_new_def)

lemma cart_partial_layout: "cartridge_layout cart_partial"
  by (auto simp: cartridge_layout_def cart_partial_def Cartridge_new_def list_all2_conv_all_nth
      nth_list_update chip_fits_def)

lemma cart_partial_chip: "chip cart_partial ! 0 = Some (replicate 0x1800 0xEA)"
  by (simp add: cart_partial_def Cartridge_new_def)

lemma cart_partial_placed: "chip_placed cart_partial 0"
  by (simp add: chip_placed_def cart_partial_def Cartridge_new_def)

lemma cart_partial_last: "0 \<noteq> unat (lastBlendedIn cart_partial)"
  by (simp add: cart_partial_def Cartridge_new_def)

lemma cart_banked_from_bankIn: "bankIn 0 cart_partial = Inr cart_banked"
  by (simp add: bankIn_def cart_partial_def cart_banked_def Cartridge_new_def memcpy_def set_blocks_def)

lemma cart_banked_layout: "cartridge_layout cart_banked"
  using cart_partial_layout by (simp add: cartridge_layout_def cart_banked_def)

lemma cart_banked_chip: "chip cart_banked ! 0 = Some (replicate 0x1800 0xEA)"
  by (simp add: cart_banked_def cart_partial_def Cartridge_new_def)

lemma cart_banked_fits:
  "unat (chipStartAddress cart_banked ! 0) + unat (chipSize cart_banked ! 0) \<le> 0xFFFF"
  by (simp add: cart_banked_def cart_partial_def Cartridge_new_def)

lemma cart_banked_last: "unat (lastBlendedIn cart_banked) = 0"
  by (simp add: cart_banked_def)

subsection \<open>Claims on bank switching\<close>

text \<open>
  C3 (as amended). For a cartridge with a chip \<open>nr\<close> placed as \<^verbatim>\<open>loadChip\<close> accepts it
  and \<open>nr\<close> different from \<open>lastBlendedIn\<close>, \<^verbatim>\<open>bankIn(nr)\<close> returns normally; it
  copies the chip's \<open>size\<close> bytes into \<open>rom\<close> from offset \<open>start - 0x8000\<close> and leaves
  the other bytes of \<open>rom\<close> as they were; it sets to 1 exactly the block flags \<open>i\<close> with
  \<open>start >> 12 \<le> i < (start + size) >> 12\<close> and leaves the other flags as they were;
  it sets \<open>lastBlendedIn\<close> to \<open>nr\<close> and changes nothing else. The upper bound is
  exclusive: a block that the range covers only in part at its upper end is not marked.
\<close>

theorem bankIn_copies_and_marks_whole_blocks:
  assumes "cartridge_layout c" and "nr < 64" and "chip c ! nr = Some data"
    and "chip_placed c nr" and "nr \<noteq> unat (lastBlendedIn c)"
  shows "\<exists>c'. bankIn nr c = Inr c' \<and>
      length (rom c') = 0x8000 \<and>
      (\<forall>a < 0x8000. rom c' ! a =
          (if unat (chipStartAddress c ! nr) - 0x8000 \<le> a \<and>
              a < unat (chipStartAddress c ! nr) - 0x8000 + unat (chipSize c ! nr)
           then data ! (a - (unat (chipStartAddress c ! nr) - 0x8000)) else rom c ! a)) \<and>
      length (blendedIn c') = 16 \<and>
      (\<forall>i < 16. blendedIn c' ! i =
          (if block_of (unat (chipStartAddress c ! nr)) \<le> i \<and>
              i < block_of (unat (chipStartAddress c ! nr) + unat (chipSize c ! nr))
           then 1 else blendedIn c ! i)) \<and>
      lastBlendedIn c' = of_nat nr \<and>
      c' = c\<lparr>rom := rom c', blendedIn := blendedIn c', lastBlendedIn := lastBlendedIn c'\<rparr>"
proof -
  let ?start = "unat (chipStartAddress c ! nr)" and ?sz = "unat (chipSize c ! nr)"
  have len: "length data = ?sz"
    using assms(1-3) by (rule layout_chip_length)
  have rom: "length (rom c) = 0x8000" and bl: "length (blendedIn c) = 16"
    using assms(1) by (simp_all add: cartridge_layout_def)
  have lo: "0x8000 \<le> ?start" and hi: "?start + ?sz \<le> 0xFFFF"
    using assms(4) by (simp_all add: chip_placed_def)
  have fits: "?start - 0x8000 + length data \<le> length (rom c)"
    unfolding len rom using lo hi by linarith
  have splice: "(take (?start - 0x8000) (rom c) @ data @ drop (?start - 0x8000 + ?sz) (rom c)) ! a =
      (if ?start - 0x8000 \<le> a \<and> a < ?start - 0x8000 + ?sz then data ! (a - (?start - 0x8000))
       else rom c ! a)" if "a < 0x8000" for a
    using nth_splice [OF fits, of a] that by (simp add: len rom)
  let ?rom' = "take (?start - 0x8000) (rom c) @ data @ drop (?start - 0x8000 + ?sz) (rom c)"
  let ?bl' = "set_blocks (block_of ?start) (block_of (?start + ?sz)) 1 (blendedIn c)"
  let ?c' = "c\<lparr>rom := ?rom', blendedIn := ?bl', lastBlendedIn := of_nat nr\<rparr>"
  have sel: "rom ?c' = ?rom'" "blendedIn ?c' = ?bl'" "lastBlendedIn ?c' = of_nat nr"
    by simp_all
  have res: "bankIn nr c = Inr ?c'"
    by (rule bankIn_result [OF assms])
  have romlen: "length ?rom' = 0x8000"
    using lo hi by (simp add: len rom min_def)
  have romnth: "\<forall>a < 0x8000. ?rom' ! a =
      (if ?start - 0x8000 \<le> a \<and> a < ?start - 0x8000 + ?sz then data ! (a - (?start - 0x8000))
       else rom c ! a)"
    using splice by blast
  have bllen: "length ?bl' = 16"
    by (simp only: length_set_blocks bl)
  have blnth: "\<forall>i < 16. ?bl' ! i =
      (if block_of ?start \<le> i \<and> i < block_of (?start + ?sz) then 1 else blendedIn c ! i)"
    by (simp add: nth_set_blocks bl)
  have rest: "?c' = c\<lparr>rom := rom ?c', blendedIn := blendedIn ?c', lastBlendedIn := lastBlendedIn ?c'\<rparr>"
    by simp
  show ?thesis
    apply (rule exI [where x = ?c'])
    apply (simp only: sel)
    using res romlen romnth bllen blnth rest apply (simp only: sel)
    done
qed

text \<open>
  The theorem at the 6KB chip at 0x8000: block 8 is marked, block 9 (covered from 0x9000
  to 0x97FF only) is not; the last copied byte is at offset 0x17FF.
\<close>

theorem bankIn_copies_and_marks_whole_blocks_witness:
  "cartridge_layout cart_partial \<and> chip cart_partial ! 0 = Some (replicate 0x1800 0xEA) \<and>
   chip_placed cart_partial 0 \<and> 0 \<noteq> unat (lastBlendedIn cart_partial) \<and>
   (\<exists>c'. bankIn 0 cart_partial = Inr c' \<and> blendedIn c' ! 8 = 1 \<and> blendedIn c' ! 9 = 0 \<and>
      rom c' ! 0x17FF = 0xEA \<and> rom c' ! 0x1800 = 0 \<and> lastBlendedIn c' = 0)"
proof -
  obtain c' where *: "bankIn 0 cart_partial = Inr c'"
      "\<forall>a < 0x8000. rom c' ! a =
          (if unat (chipStartAddress cart_partial ! 0) - 0x8000 \<le> a \<and>
              a < unat (chipStartAddress cart_partial ! 0) - 0x8000 + unat (chipSize cart_partial ! 0)
           then replicate 0x1800 0xEA ! (a - (unat (chipStartAddress cart_partial ! 0) - 0x8000)) else rom cart_partial ! a)"
      "\<forall>i < 16. blendedIn c' ! i =
          (if block_of (unat (chipStartAddress cart_partial ! 0)) \<le> i \<and>
              i < block_of (unat (chipStartAddress cart_partial ! 0) + unat (chipSize cart_partial ! 0))
           then 1 else blendedIn cart_partial ! i)"
      "lastBlendedIn c' = of_nat 0"
    using bankIn_copies_and_marks_whole_blocks [OF cart_partial_layout _ cart_partial_chip
        cart_partial_placed cart_partial_last]
    by auto
  have "blendedIn c' ! 8 = 1" "blendedIn c' ! 9 = 0"
    using *(3) by (simp_all add: cart_partial_def Cartridge_new_def block_of_def)
  moreover have "rom c' ! 0x17FF = 0xEA" "rom c' ! 0x1800 = 0"
    using *(2) by (simp_all add: cart_partial_def Cartridge_new_def)
  ultimately show ?thesis
    using * cart_partial_layout cart_partial_chip cart_partial_placed cart_partial_last by simp
qed

text \<open>
  C3 as stated fails: the address 0x9000 lies in the range of the 6KB chip at 0x8000 and
  in block 9, so block 9 is partially covered at the upper end of the range, and
  \<^verbatim>\<open>bankIn(0)\<close> leaves its flag at 0.
\<close>

theorem bankIn_partial_upper_block_counterexample:
  "chip cart_partial ! 0 = Some (replicate 0x1800 0xEA) \<and>
   0 \<noteq> unat (lastBlendedIn cart_partial) \<and>
   unat (chipStartAddress cart_partial ! 0) \<le> 0x9000 \<and>
   0x9000 < unat (chipStartAddress cart_partial ! 0) + unat (chipSize cart_partial ! 0) \<and>
   block_of 0x9000 = 9 \<and>
   (case bankIn 0 cart_partial of Inl e \<Rightarrow> False | Inr c' \<Rightarrow> blendedIn c' ! 9 = 0)"
  by (simp add: bankIn_def cart_partial_def Cartridge_new_def memcpy_def set_blocks_def block_of_def)

text \<open>
  C7. For a chip index \<open>nr < 64\<close>, \<^verbatim>\<open>loadChip\<close> with a start address below 0x8000
  or with \<open>start + size > 0xFFFF\<close> returns normally with exactly one diagnostic and the
  cartridge it was given: no slot, and nothing of \<open>rom\<close>, \<open>blendedIn\<close>,
  \<open>lastBlendedIn\<close>, \<open>gameLine\<close> or \<open>exromLine\<close> is modified. In particular a
  slot \<open>nr\<close> that was unpopulated is left unpopulated.
\<close>

theorem loadChip_invalid_placement_skipped:
  assumes "nr < 64"
    and "unat (pkt_addr p) < 0x8000 \<or> unat (pkt_addr p) + unat (pkt_size p) > 0xFFFF"
  shows "\<exists>w c'. loadChip nr p malloc_ok c = Inr ([w], c') \<and> c' = c \<and>
           (chip c ! nr = None \<longrightarrow> chip c' ! nr = None)"
proof (cases "pkt_addr p < 0x8000")
  case True
  with assms(1) show ?thesis by (simp add: loadChip_def Let_def)
next
  case False
  then have "\<not> unat (pkt_addr p) < 0x8000"
    by (simp add: word_less_nat_alt)
  with assms(2) have "\<not> unat (pkt_addr p) + unat (pkt_size p) \<le> 0xFFFF" by linarith
  then have "0xFFFF - uint (pkt_addr p) < uint (pkt_size p)"
    unfolding uint_nat by linarith
  with assms(1) False show ?thesis by (simp add: loadChip_def Let_def)
qed

text \<open>
  The theorem at a packet that starts too low (0x7000) and at one that runs past 0xFFFF
  (0x2000 bytes at 0xF000).
\<close>

theorem loadChip_invalid_placement_skipped_witness:
  "(0::nat) < 64 \<and>
   unat (pkt_addr \<lparr>pkt_addr = 0x7000, pkt_size = 0x1000, pkt_data = replicate 0x1000 0\<rparr>) < 0x8000 \<and>
   loadChip 0 \<lparr>pkt_addr = 0x7000, pkt_size = 0x1000, pkt_data = replicate 0x1000 0\<rparr> True cart_partial
     = Inr ([StartTooLow 0 0x7000], cart_partial) \<and>
   (1::nat) < 64 \<and>
   unat (pkt_addr \<lparr>pkt_addr = 0xF000, pkt_size = 0x2000, pkt_data = replicate 0x2000 0\<rparr>) +
     unat (pkt_size \<lparr>pkt_addr = 0xF000, pkt_size = 0x2000, pkt_data = replicate 0x2000 0\<rparr>) > 0xFFFF \<and>
   loadChip 1 \<lparr>pkt_addr = 0xF000, pkt_size = 0x2000, pkt_data = replicate 0x2000 0\<rparr> True cart_partial
     = Inr ([InvalidSize 1 0xF000 0x2000], cart_partial) \<and>
   chip cart_partial ! 1 = None"
proof -
  have a: "(0::nat) < 64" and b: "(1::nat) < 64" by simp_all
  have h1: "unat (pkt_addr \<lparr>pkt_addr = 0x7000, pkt_size = 0x1000, pkt_data = replicate 0x1000 0\<rparr>) < 0x8000"
    by simp
  have h2: "unat (pkt_addr \<lparr>pkt_addr = 0xF000, pkt_size = 0x2000, pkt_data = replicate 0x2000 0\<rparr>) +
     unat (pkt_size \<lparr>pkt_addr = 0xF000, pkt_size = 0x2000, pkt_data = replicate 0x2000 0\<rparr>) > 0xFFFF"
    by simp
  have n: "chip cart_partial ! 1 = None"
    by (simp add: cart_partial_def Cartridge_new_def)
  from loadChip_invalid_placement_skipped [OF a disjI1 [OF h1], of True cart_partial]
  have r1: "loadChip 0 \<lparr>pkt_addr = 0x7000, pkt_size = 0x1000, pkt_data = replicate 0x1000 0\<rparr> True cart_partial
     = Inr ([StartTooLow 0 0x7000], cart_partial)"
    by (auto simp: loadChip_def)
  from loadChip_invalid_placement_skipped [OF b disjI2 [OF h2], of True cart_partial]
  have r2: "loadChip 1 \<lparr>pkt_addr = 0xF000, pkt_size = 0x2000, pkt_data = replicate 0x2000 0\<rparr> True cart_partial
     = Inr ([InvalidSize 1 0xF000 0x2000], cart_partial)"
    by (auto simp: loadChip_def)
  from a b h1 h2 r1 r2 n show ?thesis by blast
qed

text \<open>
  C8. For a cartridge with a chip \<open>nr\<close> placed as \<^verbatim>\<open>loadChip\<close> accepts it,
  \<^verbatim>\<open>bankIn(nr)\<close> followed by \<^verbatim>\<open>bankOut(nr)\<close> returns normally; afterwards the
  block flags \<open>i\<close> with \<open>start >> 12 \<le> i < (start + size) >> 12\<close> are 0 and every
  other flag has the value it had before the two calls; \<^verbatim>\<open>bankOut\<close> changes neither
  \<open>rom\<close> nor \<open>lastBlendedIn\<close>, nor anything but \<open>blendedIn\<close>.
\<close>

theorem bankIn_bankOut_clears_exactly_block_range:
  assumes "cartridge_layout c" and "nr < 64" and "chip c ! nr = Some data"
    and "chip_placed c nr"
  shows "\<exists>c1 c2. bankIn nr c = Inr c1 \<and> bankOut nr c1 = Inr c2 \<and>
      length (blendedIn c2) = 16 \<and>
      (\<forall>i < 16. blendedIn c2 ! i =
          (if block_of (unat (chipStartAddress c ! nr)) \<le> i \<and>
              i < block_of (unat (chipStartAddress c ! nr) + unat (chipSize c ! nr))
           then 0 else blendedIn c ! i)) \<and>
      rom c2 = rom c1 \<and> lastBlendedIn c2 = lastBlendedIn c1 \<and>
      c2 = c1\<lparr>blendedIn := blendedIn c2\<rparr>"
proof -
  let ?lo = "block_of (unat (chipStartAddress c ! nr))"
  let ?hi = "block_of (unat (chipStartAddress c ! nr) + unat (chipSize c ! nr))"
  have hi: "unat (chipStartAddress c ! nr) + unat (chipSize c ! nr) \<le> 0xFFFF"
    using assms(4) by (simp add: chip_placed_def)
  from bankIn_frame [OF assms] obtain c1 where c1: "bankIn nr c = Inr c1"
    and same: "chip c1 = chip c" "chipStartAddress c1 = chipStartAddress c" "chipSize c1 = chipSize c"
    and len1: "length (blendedIn c1) = 16"
    and out1: "\<forall>i < 16. \<not> (?lo \<le> i \<and> i < ?hi) \<longrightarrow> blendedIn c1 ! i = blendedIn c ! i"
    by blast
  have chip1: "chip c1 ! nr = Some data"
    by (simp only: same assms(3))
  have hi1: "unat (chipStartAddress c1 ! nr) + unat (chipSize c1 ! nr) \<le> 0xFFFF"
    by (simp only: same hi)
  from bankOut_flags [OF assms(2) chip1 hi1 len1] obtain c2 where c2: "bankOut nr c1 = Inr c2"
    and len2: "length (blendedIn c2) = 16"
    and in2: "\<forall>i < 16. blendedIn c2 ! i = (if ?lo \<le> i \<and> i < ?hi then 0 else blendedIn c1 ! i)"
    and keep: "rom c2 = rom c1" "lastBlendedIn c2 = lastBlendedIn c1" "c2 = c1\<lparr>blendedIn := blendedIn c2\<rparr>"
    unfolding same by blast
  have flags: "\<forall>i < 16. blendedIn c2 ! i = (if ?lo \<le> i \<and> i < ?hi then 0 else blendedIn c ! i)"
  proof (intro allI impI)
    fix i :: nat
    assume i: "i < 16"
    show "blendedIn c2 ! i = (if ?lo \<le> i \<and> i < ?hi then 0 else blendedIn c ! i)"
    proof (cases "?lo \<le> i \<and> i < ?hi")
      case True
      with in2 i show ?thesis by simp
    next
      case False
      from in2 i have "blendedIn c2 ! i = (if ?lo \<le> i \<and> i < ?hi then 0 else blendedIn c1 ! i)"
        by blast
      with False have "blendedIn c2 ! i = blendedIn c1 ! i"
        by (simp only: if_False)
      moreover from out1 i False have "blendedIn c1 ! i = blendedIn c ! i"
        by blast
      ultimately show ?thesis using False by (simp only: if_False)
    qed
  qed
  show ?thesis
    apply (rule exI [where x = c1])
    apply (rule exI [where x = c2])
    apply (intro conjI)
          apply (rule c1)
         apply (rule c2)
        apply (rule len2)
       apply (rule flags)
      apply (rule keep(1))
     apply (rule keep(2))
    apply (rule keep(3))
    done
qed

text \<open>The theorem at the 6KB chip at 0x8000.\<close>

theorem bankIn_bankOut_clears_exactly_block_range_witness:
  "cartridge_layout cart_partial \<and> (0::nat) < 64 \<and>
   chip cart_partial ! 0 = Some (replicate 0x1800 0xEA) \<and> chip_placed cart_partial 0 \<and>
   (\<exists>c1 c2. bankIn 0 cart_partial = Inr c1 \<and> bankOut 0 c1 = Inr c2 \<and>
      blendedIn c2 ! 8 = 0 \<and> blendedIn c2 ! 9 = 0 \<and> rom c2 = rom c1 \<and>
      lastBlendedIn c2 = lastBlendedIn c1)"
proof -
  have lt: "(0::nat) < 64" by simp
  from bankIn_bankOut_clears_exactly_block_range
    [OF cart_partial_layout lt cart_partial_chip cart_partial_placed]
  obtain c1 c2 where r: "bankIn 0 cart_partial = Inr c1" "bankOut 0 c1 = Inr c2"
    and flags: "\<forall>i < 16. blendedIn c2 ! i =
          (if block_of (unat (chipStartAddress cart_partial ! 0)) \<le> i \<and>
              i < block_of (unat (chipStartAddress cart_partial ! 0) + unat (chipSize cart_partial ! 0))
           then 0 else blendedIn cart_partial ! i)"
    and keep: "rom c2 = rom c1" "lastBlendedIn c2 = lastBlendedIn c1"
    by blast
  from flags have "blendedIn c2 ! 8 = 0" "blendedIn c2 ! 9 = 0"
    by (simp_all add: cart_partial_def Cartridge_new_def block_of_def)
  with r keep cart_partial_layout lt cart_partial_chip cart_partial_placed
  show ?thesis by blast
qed

text \<open>
  C10. For a cartridge in which chip \<open>nr\<close> is populated and \<open>lastBlendedIn\<close> is
  \<open>nr\<close>, \<^verbatim>\<open>bankOut(nr)\<close> followed by \<^verbatim>\<open>bankIn(nr)\<close> returns normally, the
  \<^verbatim>\<open>bankIn\<close> changes nothing, and every flag of the chip's block range is 0: the
  chip is not blended in again.
\<close>

theorem bankOut_then_bankIn_stays_cleared:
  assumes "cartridge_layout c" and "nr < 64" and "chip c ! nr = Some data"
    and "unat (chipStartAddress c ! nr) + unat (chipSize c ! nr) \<le> 0xFFFF"
    and "unat (lastBlendedIn c) = nr"
  shows "\<exists>c1 c2. bankOut nr c = Inr c1 \<and> bankIn nr c1 = Inr c2 \<and> c2 = c1 \<and>
      (\<forall>i < 16. block_of (unat (chipStartAddress c ! nr)) \<le> i \<and>
            i < block_of (unat (chipStartAddress c ! nr) + unat (chipSize c ! nr))
          \<longrightarrow> blendedIn c2 ! i = 0)"
proof -
  let ?lo = "block_of (unat (chipStartAddress c ! nr))"
  let ?hi = "block_of (unat (chipStartAddress c ! nr) + unat (chipSize c ! nr))"
  let ?c1 = "c\<lparr>blendedIn := set_blocks ?lo ?hi 0 (blendedIn c)\<rparr>"
  have bl: "length (blendedIn c) = 16"
    using assms(1) by (simp add: cartridge_layout_def)
  have out: "bankOut nr c = Inr ?c1"
    by (rule bankOut_result [OF assms(2,3,4)])
  have again: "bankIn nr ?c1 = Inr ?c1"
    using assms(2,3,5) by (simp add: bankIn_def)
  have "\<forall>i < 16. ?lo \<le> i \<and> i < ?hi \<longrightarrow> blendedIn ?c1 ! i = 0"
    by (simp add: nth_set_blocks bl)
  then show ?thesis
    apply (intro exI [where x = ?c1] conjI)
       apply (rule out)
      apply (rule again)
     apply (rule refl)
    apply assumption
    done
qed

text \<open>
  The theorem at the cartridge that \<^verbatim>\<open>bankIn(0)\<close> has just produced, where the flag of
  block 8 is 1 before the two calls.
\<close>

theorem bankOut_then_bankIn_stays_cleared_witness:
  "cartridge_layout cart_banked \<and> (0::nat) < 64 \<and>
   chip cart_banked ! 0 = Some (replicate 0x1800 0xEA) \<and>
   unat (chipStartAddress cart_banked ! 0) + unat (chipSize cart_banked ! 0) \<le> 0xFFFF \<and>
   unat (lastBlendedIn cart_banked) = 0 \<and>
   blendedIn cart_banked ! 8 = 1 \<and>
   (\<exists>c1 c2. bankOut 0 cart_banked = Inr c1 \<and> bankIn 0 c1 = Inr c2 \<and> blendedIn c2 ! 8 = 0)"
proof -
  have lt: "(0::nat) < 64" by simp
  have before: "blendedIn cart_banked ! 8 = 1"
    by (simp add: cart_banked_def)
  from bankOut_then_bankIn_stays_cleared
    [OF cart_banked_layout lt cart_banked_chip cart_banked_fits cart_banked_last]
  obtain c1 c2 where r: "bankOut 0 cart_banked = Inr c1" "bankIn 0 c1 = Inr c2"
    and flags: "\<forall>i < 16. block_of (unat (chipStartAddress cart_banked ! 0)) \<le> i \<and>
            i < block_of (unat (chipStartAddress cart_banked ! 0) + unat (chipSize cart_banked ! 0))
          \<longrightarrow> blendedIn c2 ! i = 0"
    by blast
  from flags have "blendedIn c2 ! 8 = 0"
    by (simp add: cart_banked_def cart_partial_def Cartridge_new_def block_of_def)
  with r before cart_banked_layout lt cart_banked_chip cart_banked_fits cart_banked_last
  show ?thesis by blast
qed

section \<open>Cartridge: state persistence\<close>

subsection \<open>The chip loops\<close>

lemma write16_append: "write16 buf v = buf @ bytes16 v"
  by (simp add: write16_def write8_def bytes16_def)

lemma u16_from_bytes: "push_bit 8 (ucast (ucast (drop_bit 8 v) :: u8)) OR ucast (ucast v :: u8) = (v :: u16)"
  by (rule bit_word_eqI) (auto simp: bit_simps)

lemma read16_written: "read16 (bytes16 v @ rest) = Inr (v, rest)"
  by (simp add: read16_def read8_def u16_from_bytes bytes16_def)

lemma readBlock_prefix: "readBlock (d @ rest) (length d) = Inr (d, rest)"
  by (simp add: readBlock_def)

lemma slot_ok_cases:
  assumes "slot_ok c i"
  obtains (absent) "chip c ! i = None" "chipSize c ! i = 0"
        | (present) d where "chip c ! i = Some d" "0 < chipSize c ! i" "length d = unat (chipSize c ! i)"
  using assms by (cases "chip c ! i") (auto simp: slot_ok_def chip_fits_def word_gt_0)

lemma save_chips_bytes:
  assumes "\<forall>i \<in> set js. slot_ok c i"
  shows "save_chips c js buf = Inr (buf @ concat (map (slot_bytes c) js))"
  using assms
proof (induction js arbitrary: buf)
  case Nil
  show ?case by simp
next
  case (Cons i js)
  then have ok: "slot_ok c i" and rest: "\<forall>i \<in> set js. slot_ok c i" by simp_all
  from ok show ?case
  proof (cases rule: slot_ok_cases)
    case absent
    then show ?thesis
      by (simp add: Cons.IH [OF rest] slot_bytes_def write16_append)
  next
    case (present d)
    then show ?thesis
      by (simp add: Cons.IH [OF rest] slot_bytes_def write16_append writeBlock_def)
  qed
qed

lemma load_chips_bytes:
  assumes "\<forall>i \<in> set js. slot_ok c i"
  shows "load_chips js (concat (map (slot_bytes c) js) @ rest, c0) = Inr (rest, fold (copy_slot c) js c0)"
  using assms
proof (induction js arbitrary: c0)
  case Nil
  show ?case by simp
next
  case (Cons i js)
  then have ok: "slot_ok c i" and others: "\<forall>i \<in> set js. slot_ok c i" by simp_all
  from ok show ?case
  proof (cases rule: slot_ok_cases)
    case absent
    have "load_chips (i # js) (concat (map (slot_bytes c) (i # js)) @ rest, c0) =
          load_chips js (concat (map (slot_bytes c) js) @ rest, copy_slot c i c0)"
      using absent
      by (simp add: slot_bytes_def write16_append read16_written copy_slot_def)
    then show ?thesis by (simp add: Cons.IH [OF others])
  next
    case (present d)
    have "load_chips (i # js) (concat (map (slot_bytes c) (i # js)) @ rest, c0) =
          load_chips js (concat (map (slot_bytes c) js) @ rest, copy_slot c i c0)"
      using present readBlock_prefix [of d "concat (map (slot_bytes c) js) @ rest"]
      by (simp add: slot_bytes_def write16_append read16_written copy_slot_def)
    then show ?thesis by (simp add: Cons.IH [OF others])
  qed
qed

lemma fold_copy_slot_frame:
  "gameLine (fold (copy_slot c) js c0) = gameLine c0 \<and>
   exromLine (fold (copy_slot c) js c0) = exromLine c0 \<and>
   rom (fold (copy_slot c) js c0) = rom c0 \<and>
   blendedIn (fold (copy_slot c) js c0) = blendedIn c0 \<and>
   lastBlendedIn (fold (copy_slot c) js c0) = lastBlendedIn c0 \<and>
   length (chip (fold (copy_slot c) js c0)) = length (chip c0) \<and>
   length (chipStartAddress (fold (copy_slot c) js c0)) = length (chipStartAddress c0) \<and>
   length (chipSize (fold (copy_slot c) js c0)) = length (chipSize c0)"
  by (induction js arbitrary: c0) (simp_all add: copy_slot_def)

lemma fold_copy_slot_nth:
  assumes "i < length (chip c0)" "i < length (chipStartAddress c0)" "i < length (chipSize c0)"
  shows "chip (fold (copy_slot c) js c0) ! i = (if i \<in> set js then chip c ! i else chip c0 ! i) \<and>
         chipStartAddress (fold (copy_slot c) js c0) ! i =
           (if i \<in> set js then chipStartAddress c ! i else chipStartAddress c0 ! i) \<and>
         chipSize (fold (copy_slot c) js c0) ! i =
           (if i \<in> set js then chipSize c ! i else chipSize c0 ! i)"
  using assms
proof (induction js arbitrary: c0)
  case Nil
  show ?case by simp
next
  case (Cons j js)
  have len: "i < length (chip (copy_slot c j c0))" "i < length (chipStartAddress (copy_slot c j c0))"
    "i < length (chipSize (copy_slot c j c0))"
    using Cons.prems by (simp_all add: copy_slot_def)
  show ?case
    using Cons.IH [OF len] Cons.prems
    by (auto simp: copy_slot_def nth_list_update)
qed

lemma fold_copy_slot_all:
  assumes "cartridge_layout c" "cartridge_layout c0"
  shows "chip (fold (copy_slot c) [0..<64] c0) = chip c \<and>
         chipStartAddress (fold (copy_slot c) [0..<64] c0) = chipStartAddress c \<and>
         chipSize (fold (copy_slot c) [0..<64] c0) = chipSize c"
proof -
  let ?r = "fold (copy_slot c) [0..<64] c0"
  have len: "length (chip c) = 64" "length (chipStartAddress c) = 64" "length (chipSize c) = 64"
    "length (chip c0) = 64" "length (chipStartAddress c0) = 64" "length (chipSize c0) = 64"
    using assms by (simp_all add: cartridge_layout_def)
  have lenr: "length (chip ?r) = 64" "length (chipStartAddress ?r) = 64" "length (chipSize ?r) = 64"
    using fold_copy_slot_frame [of c "[0..<64]" c0] len by simp_all
  have nth: "chip ?r ! i = chip c ! i \<and> chipStartAddress ?r ! i = chipStartAddress c ! i \<and>
      chipSize ?r ! i = chipSize c ! i" if "i < 64" for i
    using fold_copy_slot_nth [of i c0 c "[0..<64]"] that len by simp
  show ?thesis
    by (intro conjI nth_equalityI) (simp_all add: len lenr nth)
qed

subsection \<open>The size accounting\<close>

lemma unat_u16_bound: "unat (x :: u16) \<le> 65535"
proof -
  have "unat x < 2 ^ LENGTH(16)" by (rule unsigned_less)
  then show ?thesis by simp
qed

lemma unat_ucast_u16_u32: "unat (ucast (x :: u16) :: u32) = unat x"
  by (simp add: unsigned_ucast_eq take_bit_nat_eq_self unat_u16_bound [THEN le_less_trans])

lemma slot_sizes_bound:
  "sum_list (map (\<lambda>i. 4 + unat (sz ! i :: u16)) js) \<le> length js * 65539"
proof (induction js)
  case Nil
  show ?case by simp
next
  case (Cons j js)
  have "unat (sz ! j) \<le> 65535" by (rule unat_u16_bound)
  with Cons show ?case by simp
qed

lemma unat_size_step:
  assumes "unat (s :: u32) + (4 + unat (x :: u16)) < 2 ^ 32"
  shows "unat (s + (4 + ucast x)) = unat s + (4 + unat x)"
proof -
  have x: "unat x \<le> 65535" by (rule unat_u16_bound)
  have "unat (4 :: u32) + unat (ucast x :: u32) < 2 ^ LENGTH(32)"
    using x by (simp add: unat_ucast_u16_u32)
  then have a: "unat (4 + ucast x :: u32) = 4 + unat x"
    by (simp add: unat_add_lem [THEN iffD1] unat_ucast_u16_u32)
  have "unat s + unat (4 + ucast x :: u32) < 2 ^ LENGTH(32)"
    using assms by (simp add: a)
  then show ?thesis
    by (simp add: unat_add_lem [THEN iffD1] a)
qed

lemma unat_fold_sizes:
  assumes "unat (s0 :: u32) + sum_list (map (\<lambda>i. 4 + unat (sz ! i :: u16)) js) < 2 ^ 32"
  shows "unat (fold (\<lambda>i s. s + (4 + ucast (sz ! i))) js s0) =
         unat s0 + sum_list (map (\<lambda>i. 4 + unat (sz ! i)) js)"
  using assms
proof (induction js arbitrary: s0)
  case Nil
  show ?case by simp
next
  case (Cons j js)
  have step: "unat (s0 + (4 + ucast (sz ! j))) = unat s0 + (4 + unat (sz ! j))"
    using Cons.prems by (intro unat_size_step) simp
  have "unat (fold (\<lambda>i s. s + (4 + ucast (sz ! i))) js (s0 + (4 + ucast (sz ! j)))) =
        unat (s0 + (4 + ucast (sz ! j))) + sum_list (map (\<lambda>i. 4 + unat (sz ! i)) js)"
    using Cons.prems by (intro Cons.IH) (simp add: step)
  then show ?case by (simp add: step)
qed

lemma unat_stateSize:
  "unat (stateSize c) = 2 + sum_list (map (\<lambda>i. 4 + unat (chipSize c ! i)) [0..<64]) + 32785"
proof -
  let ?S = "sum_list (map (\<lambda>i. 4 + unat (chipSize c ! i)) [0..<64])"
  let ?f = "fold (\<lambda>i s. s + (4 + ucast (chipSize c ! i))) [0..<64] (2 :: u32)"
  have b: "?S \<le> 64 * 65539"
    using slot_sizes_bound [of "chipSize c" "[0..<64]"] by simp
  then have "unat (2 :: u32) + ?S < 2 ^ 32" by simp
  then have f: "unat ?f = 2 + ?S"
    using unat_fold_sizes [of 2 "chipSize c" "[0..<64]"] by simp
  have "unat ?f + unat (32785 :: u32) < 2 ^ LENGTH(32)"
    using b by (simp add: f)
  then have "unat (?f + 32785) = unat ?f + 32785"
    by (simp add: unat_add_lem [THEN iffD1])
  moreover have "stateSize c = ?f + 32785"
    by (simp add: stateSize_def)
  ultimately show ?thesis by (simp add: f)
qed

lemma length_slot_bytes:
  assumes "slot_ok c i"
  shows "length (slot_bytes c i) = 4 + unat (chipSize c ! i)"
  using assms by (cases rule: slot_ok_cases) (simp_all add: slot_bytes_def bytes16_def)

lemma length_slots:
  assumes "\<forall>i \<in> set js. slot_ok c i"
  shows "length (concat (map (slot_bytes c) js)) = sum_list (map (\<lambda>i. 4 + unat (chipSize c ! i)) js)"
  using assms by (induction js) (simp_all add: length_slot_bytes)

lemma all_slots_ok:
  assumes "cartridge_layout c" "chips_match_sizes c"
  shows "\<forall>i \<in> set [0..<64]. slot_ok c i"
proof
  fix i assume "i \<in> set [0..<64]"
  then have i: "i < 64" by simp
  from assms(1) have "list_all2 chip_fits (chip c) (chipSize c)" "length (chip c) = 64"
    by (simp_all add: cartridge_layout_def)
  with i have "chip_fits (chip c ! i) (chipSize c ! i)"
    by (simp add: list_all2_nthD)
  moreover from assms(2) i have "(chip c ! i \<noteq> None) = (0 < chipSize c ! i)"
    by (simp add: chips_match_sizes_def)
  ultimately show "slot_ok c i" by (simp add: slot_ok_def)
qed

lemma bool_to_u8_back: "(bool_to_u8 b \<noteq> 0) = b"
  by (simp add: bool_to_u8_def)

lemma length_state_bytes:
  assumes "cartridge_layout c" "chips_match_sizes c"
  shows "length (state_bytes c) = unat (stateSize c)"
proof -
  have "length (rom c) = 0x8000" "length (blendedIn c) = 16"
    using assms(1) by (simp_all add: cartridge_layout_def)
  then show ?thesis
    by (simp add: state_bytes_def length_slots [OF all_slots_ok [OF assms]] unat_stateSize)
qed

subsection \<open>Saving and loading\<close>

lemma saveToBuffer_bytes:
  assumes "cartridge_layout c" "chips_match_sizes c"
  shows "saveToBuffer c = Inr (state_bytes c)"
proof -
  have len: "length (rom c) = 0x8000" "length (blendedIn c) = 16"
    using assms(1) by (simp_all add: cartridge_layout_def)
  have chips: "save_chips c [0..<64] [bool_to_u8 (gameLine c), bool_to_u8 (exromLine c)] =
      Inr ([bool_to_u8 (gameLine c), bool_to_u8 (exromLine c)] @ concat (map (slot_bytes c) [0..<64]))"
    by (rule save_chips_bytes [OF all_slots_ok [OF assms]])
  have size: "int (length (state_bytes c)) = uint (stateSize c)"
    by (simp only: length_state_bytes [OF assms] uint_nat)
  show ?thesis
    using size
    by (simp add: saveToBuffer_def write8_def chips writeBlock_def len state_bytes_def Let_def)
qed

lemma loadFromBuffer_bytes:
  assumes "cartridge_layout c" "chips_match_sizes c" "cartridge_layout c0"
  shows "loadFromBuffer (state_bytes c @ rest) c0 = Inr (rest, c)"
proof -
  let ?c1 = "c0\<lparr>gameLine := gameLine c, exromLine := exromLine c\<rparr>"
  let ?c2 = "fold (copy_slot c) [0..<64] ?c1"
  let ?c3 = "?c2\<lparr>rom := rom c, blendedIn := blendedIn c, lastBlendedIn := lastBlendedIn c\<rparr>"
  have len: "length (rom c) = 0x8000" "length (blendedIn c) = 16"
    using assms(1) by (simp_all add: cartridge_layout_def)
  have lay1: "cartridge_layout ?c1"
    using assms(3) by (simp add: cartridge_layout_def)
  have chips: "load_chips [0..<64]
        (concat (map (slot_bytes c) [0..<64]) @ (rom c @ blendedIn c @ lastBlendedIn c # rest), ?c1) =
      Inr (rom c @ blendedIn c @ lastBlendedIn c # rest, ?c2)"
    by (rule load_chips_bytes [OF all_slots_ok [OF assms(1,2)]])
  have r1: "readBlock (rom c @ blendedIn c @ lastBlendedIn c # rest) 0x8000 =
      Inr (rom c, blendedIn c @ lastBlendedIn c # rest)"
    using readBlock_prefix [of "rom c"] by (simp add: len)
  have r2: "readBlock (blendedIn c @ lastBlendedIn c # rest) 16 = Inr (blendedIn c, lastBlendedIn c # rest)"
    using readBlock_prefix [of "blendedIn c"] by (simp add: len)
  have eq: "?c3 = c"
    using fold_copy_slot_all [OF assms(1) lay1] fold_copy_slot_frame [of c "[0..<64]" ?c1]
    by (intro cartridge.equality) simp_all
  have "int (length (state_bytes c @ rest)) - int (length rest) = int (length (state_bytes c))"
    by simp
  also have "\<dots> = uint (stateSize c)"
    by (simp only: length_state_bytes [OF assms(1,2)] uint_nat)
  finally have size: "int (length (state_bytes c @ rest)) - int (length rest) = uint (stateSize c)" .
  have "loadFromBuffer (state_bytes c @ rest) c0 =
      (if int (length (state_bytes c @ rest)) - int (length rest) = uint (stateSize ?c3)
       then Inr (rest, ?c3) else Inl AssertionFailed)"
    by (simp add: loadFromBuffer_def state_bytes_def read8_def bool_to_u8_back chips r1 r2 Let_def)
  then show ?thesis
    using size by (simp add: eq)
qed

lemma cart_partial_match: "chips_match_sizes cart_partial"
  by (auto simp: chips_match_sizes_def cart_partial_def Cartridge_new_def nth_list_update)

lemma Cartridge_new_layout: "cartridge_layout Cartridge_new"
  by (simp add: cartridge_layout_def Cartridge_new_def list_all2_conv_all_nth chip_fits_def)

text \<open>
  C6. For a cartridge in which a chip buffer is present exactly when its recorded size is
  positive, \<^verbatim>\<open>saveToBuffer\<close> returns normally and writes exactly \<open>stateSize\<close> bytes;
  \<^verbatim>\<open>loadFromBuffer\<close> on these bytes (followed by any others), into any cartridge
  object, returns normally, consumes exactly these bytes and yields the saved cartridge:
  the same \<open>gameLine\<close>, \<open>exromLine\<close>, start addresses, sizes and chip data of all 64
  slots, \<open>rom\<close>, \<open>blendedIn\<close> and \<open>lastBlendedIn\<close>.
\<close>

theorem saveToBuffer_loadFromBuffer_roundtrip:
  assumes "cartridge_layout c" and "chips_match_sizes c" and "cartridge_layout c0"
  shows "\<exists>bytes. saveToBuffer c = Inr bytes \<and>
           int (length bytes) = uint (stateSize c) \<and>
           loadFromBuffer (bytes @ rest) c0 = Inr (rest, c)"
proof -
  have "int (length (state_bytes c)) = uint (stateSize c)"
    by (simp only: length_state_bytes [OF assms(1,2)] uint_nat)
  with saveToBuffer_bytes [OF assms(1,2)] loadFromBuffer_bytes [OF assms]
  show ?thesis by blast
qed

text \<open>
  The theorem at the cartridge with the 6KB chip, loaded into a fresh cartridge from a
  buffer that holds one more byte.
\<close>

theorem saveToBuffer_loadFromBuffer_roundtrip_witness:
  "cartridge_layout cart_partial \<and> chips_match_sizes cart_partial \<and> cartridge_layout Cartridge_new \<and>
   (\<exists>bytes. saveToBuffer cart_partial = Inr bytes \<and>
           int (length bytes) = uint (stateSize cart_partial) \<and>
           loadFromBuffer (bytes @ [0x55]) Cartridge_new = Inr ([0x55], cart_partial))"
  using saveToBuffer_loadFromBuffer_roundtrip
    [OF cart_partial_layout cart_partial_match Cartridge_new_layout, of "[0x55]"]
    cart_partial_layout cart_partial_match Cartridge_new_layout
  by blast

section \<open>VIA: the timer pipeline\<close>

text \<open>
  \<^verbatim>\<open>execute\<close> and the register accesses are unfolded only where a proof asks for it.
\<close>

declare execute.simps [simp del]

subsection \<open>Masks and frames\<close>

lemma or_and_other: "a AND b = 0 \<Longrightarrow> (x OR a) AND b = x AND (b :: 'a :: len word)"
  by (simp add: bit.conj_disj_distrib2)

lemma or_and_same: "a AND b = b \<Longrightarrow> (x OR a) AND b = (b :: 'a :: len word)"
  by (metis bit.conj_disj_distrib2 word_ao_absorbs(3) word_bw_comms(1) word_bw_comms(2) word_oa_dist)

lemma ifr_write_clears: "(x AND NOT y) AND y = (0 :: u8)"
  by (simp add: and.assoc)

lemma ifr_write_never_sets: "(x AND NOT y) OR x = (x :: u8)"
  by (rule bit_word_eqI) (auto simp: bit_simps)

lemma bit7_stays_clear: "x AND 0x80 = 0 \<Longrightarrow> (x AND NOT y) AND 0x80 = (0 :: u8)"
proof -
  assume a: "x AND 0x80 = 0"
  have "(x AND NOT y) AND 0x80 = (x AND 0x80) AND NOT y"
    by (simp add: and.assoc and.commute and.left_commute)
  with a show ?thesis by simp
qed

lemma low7_bit7: "(x AND 0x7F) AND 0x80 = (0 :: u8)"
  by (simp add: and.assoc)

lemmas mask_defs =
  VIACountA0_def VIACountA1_def VIACountB0_def VIACountB1_def
  VIAReloadA0_def VIAReloadA1_def VIAReloadA2_def VIAReloadB0_def VIAReloadB1_def VIAReloadB2_def
  VIAPostOneShotA0_def VIAPostOneShotB0_def VIAInterrupt0_def VIAInterrupt1_def
  VIASetCA2out0_def VIASetCA2out1_def VIAClearCA2out0_def VIAClearCA2out1_def
  VIASetCB2out0_def VIASetCB2out1_def VIAClearCB2out0_def VIAClearCB2out1_def VIAClearBits_def

lemmas timer_defs =
  execute.simps timer_via_def via_cleared_def executeTimer1_def executeTimer2_def freeRunMode1_def
  SET_BIT_def HI_LO_def Let_def

lemma timer_via_sel:
  "t1 (timer_via m lo a b c x y f) = a" "ifr (timer_via m lo a b c x y f) = b"
  "pb7toggle (timer_via m lo a b c x y f) = c" "feed (timer_via m lo a b c x y f) = y"
  "delay (timer_via m lo a b c x y f) = x" "acr (timer_via m lo a b c x y f) = m"
  by (simp_all add: timer_via_def)

lemma executeTimer2_frame:
  "feed (executeTimer2 v) AND VIAPostOneShotA0 = feed v AND VIAPostOneShotA0 \<and>
   pb7toggle (executeTimer2 v) = pb7toggle v \<and>
   ifr (executeTimer2 v) AND 0x40 = ifr v AND 0x40 \<and>
   t1 (executeTimer2 v) = t1 v \<and> acr (executeTimer2 v) = acr v"
  by (simp add: executeTimer2_def Let_def SET_BIT_def VIAPostOneShotA0_def VIAPostOneShotB0_def
      or_and_other)

lemma executeTimer1_post_one_shot:
  assumes "feed v AND VIAPostOneShotA0 \<noteq> 0"
  shows "feed (executeTimer1 v) AND VIAPostOneShotA0 \<noteq> 0 \<and>
         pb7toggle (executeTimer1 v) = pb7toggle v \<and>
         ifr (executeTimer1 v) = ifr v"
  using assms
  by (simp add: executeTimer1_def Let_def VIAPostOneShotA0_def or_and_same)

lemma execute_frame:
  "feed (fst (execute (v, d))) = feed (executeTimer2 (executeTimer1 v)) \<and>
   pb7toggle (fst (execute (v, d))) = pb7toggle (executeTimer2 (executeTimer1 v)) \<and>
   ifr (fst (execute (v, d))) = ifr (executeTimer2 (executeTimer1 v)) \<and>
   t1 (fst (execute (v, d))) = t1 (executeTimer2 (executeTimer1 v))"
  by (simp add: execute.simps Let_def)

subsection \<open>Cycles\<close>

lemma cycles_Suc_right: "cycles (Suc n) s = execute (cycles n s)"
  by (induction n arbitrary: s) simp_all

lemma cycles_numeral: "cycles (numeral k) s = cycles (pred_numeral k) (execute s)"
  by (simp add: numeral_eq_Suc)

lemma cycles_add: "cycles (m + n) s = cycles n (cycles m s)"
  by (induction m arbitrary: s) simp_all

text \<open>
  Once Timer 1 has fired (\<open>VIAPostOneShotA0\<close> is in \<open>feed\<close>), no cycle sets its
  interrupt flag or toggles PB7, whatever the timer mode.
\<close>

lemma execute_post_one_shot:
  assumes "feed v AND VIAPostOneShotA0 \<noteq> 0"
  shows "feed (fst (execute (v, d))) AND VIAPostOneShotA0 \<noteq> 0 \<and>
         pb7toggle (fst (execute (v, d))) = pb7toggle v \<and>
         ifr (fst (execute (v, d))) AND 0x40 = ifr v AND 0x40"
proof -
  let ?w = "executeTimer1 v"
  note a = executeTimer1_post_one_shot [OF assms]
  note b = executeTimer2_frame [of ?w]
  note c = execute_frame [of v d]
  have "feed (fst (execute (v, d))) AND VIAPostOneShotA0 = feed ?w AND VIAPostOneShotA0"
    using b c by simp
  moreover have "pb7toggle (fst (execute (v, d))) = pb7toggle v"
    using a b c by simp
  moreover have "ifr (fst (execute (v, d))) AND 0x40 = ifr v AND 0x40"
    using a b c by simp
  ultimately show ?thesis using a by simp
qed

lemma cycles_post_one_shot:
  assumes "feed (fst s) AND VIAPostOneShotA0 \<noteq> 0"
  shows "feed (fst (cycles n s)) AND VIAPostOneShotA0 \<noteq> 0 \<and>
         pb7toggle (fst (cycles n s)) = pb7toggle (fst s) \<and>
         ifr (fst (cycles n s)) AND 0x40 = ifr (fst s) AND 0x40"
  using assms
proof (induction n arbitrary: s)
  case 0
  then show ?case by simp
next
  case (Suc n)
  obtain v d where s: "s = (v, d)" by (cases s)
  from Suc.prems have inv: "feed v AND VIAPostOneShotA0 \<noteq> 0" by (simp add: s)
  note step = execute_post_one_shot [OF inv, of d]
  from step have "feed (fst (execute s)) AND VIAPostOneShotA0 \<noteq> 0"
    unfolding s by blast
  from Suc.IH [OF this] step show ?case by (simp add: s)
qed

subsection \<open>The one-shot scenario, cycle by cycle\<close>

lemma one_shot_pokes:
  "pokes k [(0xB, 0x00), (0x4, 0x05), (0x5, 0x00)] (reset v, d) =
     Inr (timer_via 0 5 5 0 False 4 5 0x1AA, d)"
  by (cases k)
     (simp_all add: poke_def reset_def clearInterruptFlag_T1_def mask_defs timer_defs
       cong: let_weak_cong)

lemma one_shot_step_1:
  "execute (timer_via 0x00 5 0x5 0x0 False 4 5 0x1AA, d) =
     (timer_via 0x00 5 0x5 0x0 False 13 5 0x1AA, d)"
  by (simp add: mask_defs timer_defs cong: let_weak_cong)

lemma one_shot_step_2:
  "execute (timer_via 0x00 5 0x5 0x0 False 13 5 0x1AA, d) =
     (timer_via 0x00 5 0x5 0x0 False 15 5 0x1A9, d)"
  by (simp add: mask_defs timer_defs cong: let_weak_cong)

lemma one_shot_step_3:
  "execute (timer_via 0x00 5 0x5 0x0 False 15 5 0x1A9, d) =
     (timer_via 0x00 5 0x4 0x0 False 15 5 0x1A8, d)"
  by (simp add: mask_defs timer_defs cong: let_weak_cong)

lemma one_shot_step_4:
  "execute (timer_via 0x00 5 0x4 0x0 False 15 5 0x1A8, d) =
     (timer_via 0x00 5 0x3 0x0 False 15 5 0x1A7, d)"
  by (simp add: mask_defs timer_defs cong: let_weak_cong)

lemma one_shot_step_5:
  "execute (timer_via 0x00 5 0x3 0x0 False 15 5 0x1A7, d) =
     (timer_via 0x00 5 0x2 0x0 False 15 5 0x1A6, d)"
  by (simp add: mask_defs timer_defs cong: let_weak_cong)

lemma one_shot_step_6:
  "execute (timer_via 0x00 5 0x2 0x0 False 15 5 0x1A6, d) =
     (timer_via 0x00 5 0x1 0x0 False 15 5 0x1A5, d)"
  by (simp add: mask_defs timer_defs cong: let_weak_cong)

lemma one_shot_step_7:
  "execute (timer_via 0x00 5 0x1 0x0 False 15 5 0x1A5, d) =
     (timer_via 0x00 5 0x0 0x40 True 1039 1029 0x1A4, d)"
  by (simp add: mask_defs timer_defs cong: let_weak_cong)

lemma one_shot_step_8:
  "execute (timer_via 0x00 5 0x0 0x40 True 1039 1029 0x1A4, d) =
     (timer_via 0x00 5 0xFFFF 0x40 True 1039 1029 0x1A3, d)"
  by (simp add: mask_defs timer_defs cong: let_weak_cong)

lemmas one_shot_steps = one_shot_step_1 one_shot_step_2 one_shot_step_3 one_shot_step_4 one_shot_step_5 one_shot_step_6 one_shot_step_7 one_shot_step_8

lemma one_shot_before_expiry:
  assumes "n < 7"
  shows "ifr (fst (cycles n (timer_via 0 5 5 0 False 4 5 0x1AA, d))) = 0 \<and>
         pb7toggle (fst (cycles n (timer_via 0 5 5 0 False 4 5 0x1AA, d))) = False"
proof -
  from assms have "n = 0 \<or> n = 1 \<or> n = 2 \<or> n = 3 \<or> n = 4 \<or> n = 5 \<or> n = 6" by arith
  then show ?thesis
    by (elim disjE) (simp_all add: cycles_numeral one_shot_steps timer_via_sel)
qed

lemma one_shot_at_expiry:
  "cycles 7 (timer_via 0 5 5 0 False 4 5 0x1AA, d) = (timer_via 0 5 0 0x40 True 1039 1029 0x1A4, d)"
  by (simp add: cycles_numeral one_shot_steps)

lemma one_shot_after_8:
  "cycles 8 (timer_via 0 5 5 0 False 4 5 0x1AA, d) = (timer_via 0 5 0xFFFF 0x40 True 1039 1029 0x1A3, d)"
  by (simp add: cycles_numeral one_shot_steps)

lemma one_shot_after_expiry:
  assumes "7 \<le> n"
  shows "ifr (fst (cycles n (timer_via 0 5 5 0 False 4 5 0x1AA, d))) AND 0x40 = 0x40 \<and>
         pb7toggle (fst (cycles n (timer_via 0 5 5 0 False 4 5 0x1AA, d))) = True"
proof -
  from assms obtain m where n: "n = 7 + m" using le_Suc_ex by blast
  have inv: "feed (fst (timer_via 0 5 0 0x40 True 1039 1029 0x1A4, d)) AND VIAPostOneShotA0 \<noteq> 0"
    by (simp add: timer_via_sel VIAPostOneShotA0_def)
  from cycles_post_one_shot [OF inv, of m] show ?thesis
    by (simp add: n cycles_add one_shot_at_expiry timer_via_sel)
qed

lemma one_shot_flag_stays_clear:
  assumes "7 \<le> n"
    and "cycles n (timer_via 0 5 5 0 False 4 5 0x1AA, d) = (w, e)"
  shows "ifr (fst (cycles m (w\<lparr>ifr := ifr w AND NOT 0x40\<rparr>, e))) AND 0x40 = 0"
proof -
  from assms(1) obtain j where n: "n = 7 + j" using le_Suc_ex by blast
  have inv: "feed (fst (timer_via 0 5 0 0x40 True 1039 1029 0x1A4, d)) AND VIAPostOneShotA0 \<noteq> 0"
    by (simp add: timer_via_sel VIAPostOneShotA0_def)
  from cycles_post_one_shot [OF inv, of j] assms(2)
  have "feed w AND VIAPostOneShotA0 \<noteq> 0"
    by (simp add: n cycles_add one_shot_at_expiry)
  then have "feed (fst (w\<lparr>ifr := ifr w AND NOT 0x40\<rparr>, e)) AND VIAPostOneShotA0 \<noteq> 0"
    by simp
  from cycles_post_one_shot [OF this, of m] show ?thesis
    by (simp add: and.assoc)
qed

text \<open>
  C4 (as amended). From a freshly reset VIA, after \<open>poke(0xB, 0x00)\<close>,
  \<open>poke(0x4, 0x05)\<close> and \<open>poke(0x5, 0x00)\<close>, 8 calls of \<^verbatim>\<open>execute\<close> leave T1 at
  0xFFFF. IFR bit 6 is set after \<open>n\<close> cycles exactly when \<open>n \<ge> 7\<close>, and
  \<open>pb7toggle\<close> differs from its value before the sequence exactly when \<open>n \<ge> 7\<close>:
  the timer fires in the 7th cycle and PB7 is toggled exactly once. If the flag is
  cleared at any time after that, no later cycle sets it again.
\<close>

theorem one_shot_fires_once_at_seventh_cycle:
  "\<exists>s. pokes k [(0xB, 0x00), (0x4, 0x05), (0x5, 0x00)] (reset v, d) = Inr s \<and>
       t1 (fst (cycles 8 s)) = 0xFFFF \<and>
       (\<forall>n. (ifr (fst (cycles n s)) AND 0x40 = 0x40) = (7 \<le> n)) \<and>
       (\<forall>n. pb7toggle (fst (cycles n s)) =
          (if 7 \<le> n then \<not> pb7toggle (reset v) else pb7toggle (reset v))) \<and>
       (\<forall>n m w e. 7 \<le> n \<and> cycles n s = (w, e) \<longrightarrow>
          ifr (fst (cycles m (w\<lparr>ifr := ifr w AND NOT 0x40\<rparr>, e))) AND 0x40 = 0)"
proof -
  let ?s = "(timer_via 0 5 5 0 False 4 5 0x1AA, d)"
  have p: "pb7toggle (reset v) = False"
    by (simp add: reset_def via_cleared_def)
  have a: "t1 (fst (cycles 8 ?s)) = 0xFFFF"
    by (simp add: one_shot_after_8 timer_via_sel)
  have b: "(ifr (fst (cycles n ?s)) AND 0x40 = 0x40) = (7 \<le> n)" for n
  proof (cases "7 \<le> n")
    case True
    with one_shot_after_expiry [OF True, of d] show ?thesis by simp
  next
    case False
    then have "n < 7" by simp
    from one_shot_before_expiry [OF this, of d] False show ?thesis by simp
  qed
  have c: "pb7toggle (fst (cycles n ?s)) = (if 7 \<le> n then \<not> pb7toggle (reset v) else pb7toggle (reset v))" for n
  proof (cases "7 \<le> n")
    case True
    with one_shot_after_expiry [OF True, of d] show ?thesis by (simp add: p)
  next
    case False
    then have "n < 7" by simp
    from one_shot_before_expiry [OF this, of d] False show ?thesis by (simp add: p)
  qed
  have e: "\<forall>n m w e. 7 \<le> n \<and> cycles n ?s = (w, e) \<longrightarrow>
      ifr (fst (cycles m (w\<lparr>ifr := ifr w AND NOT 0x40\<rparr>, e))) AND 0x40 = 0"
    using one_shot_flag_stays_clear by blast
  from a b c e show ?thesis
    unfolding one_shot_pokes by blast
qed

text \<open>The theorem for a VIA 1, at 6, 7, 8 and 70000 cycles.\<close>

theorem one_shot_fires_once_at_seventh_cycle_witness:
  "\<exists>s. pokes Via1 [(0xB, 0x00), (0x4, 0x05), (0x5, 0x00)] (reset via_cleared, drive0) = Inr s \<and>
       t1 (fst (cycles 8 s)) = 0xFFFF \<and>
       ifr (fst (cycles 6 s)) AND 0x40 \<noteq> 0x40 \<and>
       ifr (fst (cycles 7 s)) AND 0x40 = 0x40 \<and>
       ifr (fst (cycles 70000 s)) AND 0x40 = 0x40 \<and>
       pb7toggle (fst (cycles 6 s)) = False \<and>
       pb7toggle (fst (cycles 7 s)) = True \<and>
       pb7toggle (fst (cycles 70000 s)) = True \<and>
       (7::nat) \<le> 8 \<and>
       ifr (fst (cycles 70000 ((fst (cycles 8 s))\<lparr>ifr := ifr (fst (cycles 8 s)) AND NOT 0x40\<rparr>,
                                 snd (cycles 8 s)))) AND 0x40 = 0"
proof -
  from one_shot_fires_once_at_seventh_cycle [of Via1 via_cleared drive0]
  obtain s where s: "pokes Via1 [(0xB, 0x00), (0x4, 0x05), (0x5, 0x00)] (reset via_cleared, drive0) = Inr s"
    "t1 (fst (cycles 8 s)) = 0xFFFF"
    "\<forall>n. (ifr (fst (cycles n s)) AND 0x40 = 0x40) = (7 \<le> n)"
    "\<forall>n. pb7toggle (fst (cycles n s)) =
        (if 7 \<le> n then \<not> pb7toggle (reset via_cleared) else pb7toggle (reset via_cleared))"
    "\<forall>n m w e. 7 \<le> n \<and> cycles n s = (w, e) \<longrightarrow>
          ifr (fst (cycles m (w\<lparr>ifr := ifr w AND NOT 0x40\<rparr>, e))) AND 0x40 = 0"
    by blast
  have p: "pb7toggle (reset via_cleared) = False"
    by (simp add: reset_def via_cleared_def)
  from s(3) have "ifr (fst (cycles 6 s)) AND 0x40 \<noteq> 0x40" "ifr (fst (cycles 7 s)) AND 0x40 = 0x40"
    "ifr (fst (cycles 70000 s)) AND 0x40 = 0x40"
    by simp_all
  moreover from s(4) have "pb7toggle (fst (cycles 6 s)) = False" "pb7toggle (fst (cycles 7 s)) = True"
    "pb7toggle (fst (cycles 70000 s)) = True"
    by (simp_all add: p)
  moreover have "(7::nat) \<le> 8" by simp
  moreover from this s(5) have "ifr (fst (cycles 70000 ((fst (cycles 8 s))\<lparr>ifr := ifr (fst (cycles 8 s)) AND NOT 0x40\<rparr>,
                                 snd (cycles 8 s)))) AND 0x40 = 0"
    by (metis prod.collapse)
  ultimately show ?thesis using s(1,2) by blast
qed

text \<open>
  C4 as stated fails: after the three pokes and 6 cycles T1 is 1, not 0xFFFF, IFR bit 6
  is clear and \<open>pb7toggle\<close> has the value it had before the sequence, on a VIA 1 and on
  a VIA 2.
\<close>

theorem one_shot_six_cycles_counterexample:
  "(case pokes Via1 [(0xB, 0x00), (0x4, 0x05), (0x5, 0x00)] (reset via_cleared, drive0) of
      Inl e \<Rightarrow> False
    | Inr s \<Rightarrow> t1 (fst (cycles 6 s)) = 1 \<and> t1 (fst (cycles 6 s)) \<noteq> 0xFFFF \<and>
              ifr (fst (cycles 6 s)) AND 0x40 = 0 \<and>
              pb7toggle (fst (cycles 6 s)) = pb7toggle (reset via_cleared)) \<and>
   (case pokes Via2 [(0xB, 0x00), (0x4, 0x05), (0x5, 0x00)] (reset via_cleared, drive0) of
      Inl e \<Rightarrow> False
    | Inr s \<Rightarrow> t1 (fst (cycles 6 s)) = 1 \<and> t1 (fst (cycles 6 s)) \<noteq> 0xFFFF \<and>
              ifr (fst (cycles 6 s)) AND 0x40 = 0 \<and>
              pb7toggle (fst (cycles 6 s)) = pb7toggle (reset via_cleared))"
  by (simp only: one_shot_pokes)
     (simp add: cycles_numeral one_shot_steps timer_via_sel reset_def via_cleared_def)

subsection \<open>The free-run scenario, cycle by cycle\<close>

lemma free_run_pokes:
  "pokes k [(0xB, 0x40), (0x4, 0x02), (0x5, 0x00)] (reset v, d) =
     Inr (timer_via 0x40 2 2 0 False 4 5 0x1AA, d)"
  by (cases k)
     (simp_all add: poke_def reset_def clearInterruptFlag_T1_def mask_defs timer_defs
       cong: let_weak_cong)

lemma free_run_clear_flag:
  "poke k 0xD 0x40 (timer_via 0x40 2 0 0x40 True 1071 1029 0x1A7, d) =
     Inr (timer_via 0x40 2 0 0 True 1071 1029 0x1A7, call_out (ReleaseIrqLine CPU_VIA) d)"
  by (cases k) (simp_all add: poke_def timer_defs)

lemma free_run_step_1:
  "execute (timer_via 0x40 2 0x2 0x0 False 4 5 0x1AA, d) =
     (timer_via 0x40 2 0x2 0x0 False 13 5 0x1AA, d)"
  by (simp add: mask_defs timer_defs cong: let_weak_cong)

lemma free_run_step_2:
  "execute (timer_via 0x40 2 0x2 0x0 False 13 5 0x1AA, d) =
     (timer_via 0x40 2 0x2 0x0 False 15 5 0x1A9, d)"
  by (simp add: mask_defs timer_defs cong: let_weak_cong)

lemma free_run_step_3:
  "execute (timer_via 0x40 2 0x2 0x0 False 15 5 0x1A9, d) =
     (timer_via 0x40 2 0x1 0x0 False 15 5 0x1A8, d)"
  by (simp add: mask_defs timer_defs cong: let_weak_cong)

lemma free_run_step_4:
  "execute (timer_via 0x40 2 0x1 0x0 False 15 5 0x1A8, d) =
     (timer_via 0x40 2 0x0 0x40 True 1071 1029 0x1A7, d)"
  by (simp add: mask_defs timer_defs cong: let_weak_cong)

lemma free_run_step_5:
  "execute (timer_via 0x40 2 0x0 0x0 True 1071 1029 0x1A7, d) =
     (timer_via 0x40 2 0xFFFF 0x0 True 1103 1029 0x1A6, d)"
  by (simp add: mask_defs timer_defs cong: let_weak_cong)

lemma free_run_step_6:
  "execute (timer_via 0x40 2 0xFFFF 0x0 True 1103 1029 0x1A6, d) =
     (timer_via 0x40 2 0x1 0x0 True 1039 1029 0x1A5, d)"
  by (simp add: mask_defs timer_defs cong: let_weak_cong)

lemma free_run_step_7:
  "execute (timer_via 0x40 2 0x1 0x0 True 1039 1029 0x1A5, d) =
     (timer_via 0x40 2 0x0 0x0 True 1039 1029 0x1A4, d)"
  by (simp add: mask_defs timer_defs cong: let_weak_cong)

lemma free_run_step_8:
  "execute (timer_via 0x40 2 0x0 0x0 True 1039 1029 0x1A4, d) =
     (timer_via 0x40 2 0xFFFF 0x0 True 1039 1029 0x1A3, d)"
  by (simp add: mask_defs timer_defs cong: let_weak_cong)

lemma free_run_step_9:
  "execute (timer_via 0x40 2 0xFFFF 0x0 True 1039 1029 0x1A3, d) =
     (timer_via 0x40 2 0xFFFE 0x0 True 1039 1029 0x1A2, d)"
  by (simp add: mask_defs timer_defs cong: let_weak_cong)

lemmas free_run_steps = free_run_step_1 free_run_step_2 free_run_step_3 free_run_step_4 free_run_step_5 free_run_step_6 free_run_step_7 free_run_step_8 free_run_step_9

text \<open>
  C1, at a failing input. From a freshly reset VIA with \<open>poke(0xB, 0x40)\<close> (free-run),
  \<open>poke(0x4, 0x02)\<close> and \<open>poke(0x5, 0x00)\<close>, Timer 1 reaches zero in the 4th cycle,
  which sets IFR bit 6 and toggles PB7. After the flag is cleared by \<open>poke(0xD, 0x40)\<close>
  the counter is reloaded once (it is 1 two cycles later) and reaches zero again in the
  3rd cycle; this second expiry leaves IFR bit 6 clear and PB7 as it was, and schedules no
  reload: the counter goes on to 0xFFFF and 0xFFFE, and no later cycle sets the flag or
  toggles PB7.
\<close>

theorem free_run_second_expiry_does_not_fire:
  "\<exists>s0 s4 s4'.
      pokes k [(0xB, 0x40), (0x4, 0x02), (0x5, 0x00)] (reset v, d) = Inr s0 \<and>
      cycles 4 s0 = s4 \<and>
      t1 (fst s4) = 0 \<and> ifr (fst s4) AND 0x40 = 0x40 \<and> pb7toggle (fst s4) = True \<and>
      poke k 0xD 0x40 s4 = Inr s4' \<and> ifr (fst s4') AND 0x40 = 0 \<and>
      t1 (fst (cycles 2 s4')) = 1 \<and>
      t1 (fst (cycles 3 s4')) = 0 \<and>
      ifr (fst (cycles 3 s4')) AND 0x40 = 0 \<and> pb7toggle (fst (cycles 3 s4')) = True \<and>
      t1 (fst (cycles 4 s4')) = 0xFFFF \<and> t1 (fst (cycles 5 s4')) = 0xFFFE \<and>
      (\<forall>n. ifr (fst (cycles n s4')) AND 0x40 = 0 \<and> pb7toggle (fst (cycles n s4')) = True)"
proof -
  let ?s0 = "(timer_via 0x40 2 2 0 False 4 5 0x1AA, d)"
  let ?s4 = "(timer_via 0x40 2 0 0x40 True 1071 1029 0x1A7, d)"
  let ?s4' = "(timer_via 0x40 2 0 0 True 1071 1029 0x1A7, call_out (ReleaseIrqLine CPU_VIA) d)"
  have a: "cycles 4 ?s0 = ?s4"
    by (simp add: cycles_numeral free_run_steps)
  have b: "t1 (fst ?s4) = 0 \<and> ifr (fst ?s4) AND 0x40 = 0x40 \<and> pb7toggle (fst ?s4) = True"
    by (simp add: timer_via_sel)
  have c: "ifr (fst ?s4') AND 0x40 = 0"
    by (simp add: timer_via_sel)
  have e: "t1 (fst (cycles 2 ?s4')) = 1 \<and> t1 (fst (cycles 3 ?s4')) = 0 \<and>
      ifr (fst (cycles 3 ?s4')) AND 0x40 = 0 \<and> pb7toggle (fst (cycles 3 ?s4')) = True \<and>
      t1 (fst (cycles 4 ?s4')) = 0xFFFF \<and> t1 (fst (cycles 5 ?s4')) = 0xFFFE"
    by (simp add: cycles_numeral free_run_steps timer_via_sel)
  have inv: "feed (fst ?s4') AND VIAPostOneShotA0 \<noteq> 0"
    by (simp add: timer_via_sel VIAPostOneShotA0_def)
  have f: "ifr (fst (cycles n ?s4')) AND 0x40 = 0 \<and> pb7toggle (fst (cycles n ?s4')) = True" for n
    using cycles_post_one_shot [OF inv, of n] by (simp add: timer_via_sel)
  show ?thesis
    apply (rule exI [where x = ?s0])
    apply (rule exI [where x = ?s4])
    apply (rule exI [where x = ?s4'])
    using free_run_pokes [of k v d] a b c e f free_run_clear_flag [of k d]
    apply blast
    done
qed

text \<open>The theorem for a VIA 1 with the collaborators at rest.\<close>

theorem free_run_second_expiry_does_not_fire_witness:
  "\<exists>s0 s4'.
      pokes Via1 [(0xB, 0x40), (0x4, 0x02), (0x5, 0x00)] (reset via_cleared, drive0) = Inr s0 \<and>
      t1 (fst (cycles 4 s0)) = 0 \<and> ifr (fst (cycles 4 s0)) AND 0x40 = 0x40 \<and>
      pb7toggle (fst (cycles 4 s0)) = True \<and>
      poke Via1 0xD 0x40 (cycles 4 s0) = Inr s4' \<and>
      t1 (fst (cycles 3 s4')) = 0 \<and>
      ifr (fst (cycles 3 s4')) AND 0x40 = 0 \<and> pb7toggle (fst (cycles 3 s4')) = True \<and>
      t1 (fst (cycles 5 s4')) = 0xFFFE \<and>
      ifr (fst (cycles 70000 s4')) AND 0x40 = 0"
  using free_run_second_expiry_does_not_fire [of Via1 via_cleared drive0]
  by blast

section \<open>VIA: register accesses\<close>

subsection \<open>Read\<close>

lemma register_address_cases:
  assumes "addr \<le> (0xF :: u16)"
  shows "addr = 0 \<or> addr = 1 \<or> addr = 2 \<or> addr = 3 \<or> addr = 4 \<or> addr = 5 \<or>
         addr = 6 \<or> addr = 7 \<or> addr = 8 \<or> addr = 9 \<or> addr = 0xA \<or> addr = 0xB \<or>
         addr = 0xC \<or> addr = 0xD \<or> addr = 0xE \<or> addr = 0xF"
proof -
  from assms have "unat addr \<le> 15" by (simp add: word_le_nat_alt)
  then have "unat addr = 0 \<or> unat addr = 1 \<or> unat addr = 2 \<or> unat addr = 3 \<or>
      unat addr = 4 \<or> unat addr = 5 \<or> unat addr = 6 \<or> unat addr = 7 \<or> unat addr = 8 \<or>
      unat addr = 9 \<or> unat addr = 10 \<or> unat addr = 11 \<or> unat addr = 12 \<or>
      unat addr = 13 \<or> unat addr = 14 \<or> unat addr = 15"
    by arith
  then show ?thesis
    by (simp add: word_unat_eq_iff)
qed

text \<open>\<^verbatim>\<open>VIA1::read\<close> changes neither the VIA nor its collaborators, at any address.\<close>

lemma VIA1_read_no_side_effect:
  assumes "read Via1 addr (v, d) = Inr (r, v', d')"
  shows "v' = v \<and> d' = d"
proof (cases "addr \<le> 0xF")
  case True
  from register_address_cases [OF True] assms show ?thesis
    by (elim disjE) (simp_all add: read_def peek_def)
next
  case False
  with assms show ?thesis
    by (simp add: read_def peek_def split: if_splits)
qed

text \<open>
  C2, at a failing input. After the one-shot scenario and 8 cycles IFR is 0x40. On a
  VIA 2, \<open>read(0x4)\<close> returns the low byte of T1 and clears IFR bit 6, since the default
  branch of \<^verbatim>\<open>VIA2::read\<close> calls \<^verbatim>\<open>VIA6522::peek\<close>; on a VIA 1 the same read
  returns the same byte and leaves the state as it is.
\<close>

theorem VIA2_read_clears_T1_flag:
  "\<exists>s r s'. pokes Via2 [(0xB, 0x00), (0x4, 0x05), (0x5, 0x00)] (reset v, d) = Inr s \<and>
      ifr (fst (cycles 8 s)) = 0x40 \<and>
      read Via2 0x4 (cycles 8 s) = Inr (r, s') \<and> ifr (fst s') = 0 \<and>
      read Via1 0x4 (cycles 8 s) = Inr (r, cycles 8 s)"
proof -
  let ?s = "(timer_via 0 5 5 0 False 4 5 0x1AA, d)"
  let ?s8 = "(timer_via 0 5 0xFFFF 0x40 True 1039 1029 0x1A3, d)"
  let ?s' = "(timer_via 0 5 0xFFFF 0 True 1039 1029 0x1A3, d)"
  have a: "pokes Via2 [(0xB, 0x00), (0x4, 0x05), (0x5, 0x00)] (reset v, d) = Inr ?s"
    by (rule one_shot_pokes)
  have b: "cycles 8 ?s = ?s8"
    by (rule one_shot_after_8)
  have c: "ifr (fst ?s8) = 0x40" "ifr (fst ?s') = 0"
    by (simp_all add: timer_via_sel)
  have e: "read Via2 0x4 ?s8 = Inr (0xFF, ?s')"
    by (simp add: read_def timer_via_def via_cleared_def clearInterruptFlag_T1_def LO_BYTE_def)
  have f: "read Via1 0x4 ?s8 = Inr (0xFF, ?s8)"
    by (simp add: read_def peek_def timer_via_def via_cleared_def LO_BYTE_def)
  show ?thesis
    apply (rule exI [where x = ?s])
    apply (rule exI [where x = "0xFF"])
    apply (rule exI [where x = ?s'])
    apply (simp only: b)
    using a c e f apply blast
    done
qed

text \<open>The theorem from the cleared VIA with the collaborators at rest.\<close>

theorem VIA2_read_clears_T1_flag_witness:
  "\<exists>s r s'. pokes Via2 [(0xB, 0x00), (0x4, 0x05), (0x5, 0x00)] (reset via_cleared, drive0) = Inr s \<and>
      ifr (fst (cycles 8 s)) = 0x40 \<and>
      read Via2 0x4 (cycles 8 s) = Inr (r, s') \<and> ifr (fst s') = 0"
  using VIA2_read_clears_T1_flag [of via_cleared drive0]
  by blast

subsection \<open>Writes to IFR and IER\<close>

text \<open>
  C5. For every VIA of either class and every byte \<open>val\<close>: \<open>poke(0xD, val)\<close> returns
  normally and stores \<open>ifr AND NOT val\<close>, so every IFR bit set in \<open>val\<close> is clear, no
  bit is set that was clear, bit 7 stays clear when it was clear, and IER is unchanged;
  \<open>poke(0xE, val)\<close> returns normally and, when bit 7 of \<open>val\<close> is set, sets the IER
  bits given by the low 7 bits of \<open>val\<close>, and otherwise clears them; bit 7 of the
  stored IER is 0 in both cases, and IFR is unchanged.
\<close>

theorem poke_IFR_clears_and_IER_sets_or_clears:
  "(\<exists>v' d'. poke k 0xD val (v, d) = Inr (v', d') \<and>
       ifr v' = ifr v AND NOT val \<and> ifr v' AND val = 0 \<and> ifr v' OR ifr v = ifr v \<and>
       (ifr v AND 0x80 = 0 \<longrightarrow> ifr v' AND 0x80 = 0) \<and> ier v' = ier v) \<and>
   (\<exists>v' d'. poke k 0xE val (v, d) = Inr (v', d') \<and>
       ier v' = (if val AND 0x80 \<noteq> 0 then (ier v AND 0x7F) OR (val AND 0x7F)
                 else (ier v AND 0x7F) AND NOT val) \<and>
       ier v' AND 0x80 = 0 \<and> ifr v' = ifr v)"
proof -
  have a: "poke k 0xD val (v, d) = Inr (snd (IRQ (v\<lparr>ifr := ifr v AND NOT val\<rparr>, d)))"
    by (cases k) (simp_all add: poke_def split: prod.splits del: IRQ.simps)
  have b: "poke k 0xE val (v, d) =
      Inr (snd (IRQ (v\<lparr>ier := (if val AND 0x80 \<noteq> 0 then ier v OR val else ier v AND NOT val) AND 0x7F\<rparr>, d)))"
    by (cases k) (simp_all add: poke_def Let_def split: prod.splits del: IRQ.simps)
  have irq: "fst (snd (IRQ (w, d))) = w" for w
    by simp
  have c: "(if val AND 0x80 \<noteq> 0 then ier v OR val else ier v AND NOT val) AND 0x7F =
      (if val AND 0x80 \<noteq> 0 then (ier v AND 0x7F) OR (val AND 0x7F) else (ier v AND 0x7F) AND NOT val)"
    by (simp add: bit.conj_disj_distrib2 and.assoc and.commute and.left_commute)
  obtain v1 d1 where r1: "snd (IRQ (v\<lparr>ifr := ifr v AND NOT val\<rparr>, d)) = (v1, d1)"
    by (cases "snd (IRQ (v\<lparr>ifr := ifr v AND NOT val\<rparr>, d))")
  with irq [of "v\<lparr>ifr := ifr v AND NOT val\<rparr>"] have v1: "v1 = v\<lparr>ifr := ifr v AND NOT val\<rparr>"
    by (simp del: IRQ.simps)
  obtain v2 d2 where r2: "snd (IRQ (v\<lparr>ier := (if val AND 0x80 \<noteq> 0 then ier v OR val else ier v AND NOT val) AND 0x7F\<rparr>, d)) = (v2, d2)"
    by (cases "snd (IRQ (v\<lparr>ier := (if val AND 0x80 \<noteq> 0 then ier v OR val else ier v AND NOT val) AND 0x7F\<rparr>, d))")
  with irq [of "v\<lparr>ier := (if val AND 0x80 \<noteq> 0 then ier v OR val else ier v AND NOT val) AND 0x7F\<rparr>"]
  have v2: "v2 = v\<lparr>ier := (if val AND 0x80 \<noteq> 0 then ier v OR val else ier v AND NOT val) AND 0x7F\<rparr>"
    by (simp del: IRQ.simps)
  have p1: "ifr v1 = ifr v AND NOT val \<and> ifr v1 AND val = 0 \<and> ifr v1 OR ifr v = ifr v \<and>
       (ifr v AND 0x80 = 0 \<longrightarrow> ifr v1 AND 0x80 = 0) \<and> ier v1 = ier v"
    by (simp add: v1 ifr_write_clears ifr_write_never_sets bit7_stays_clear)
  have p2a: "ier v2 = (if val AND 0x80 \<noteq> 0 then (ier v AND 0x7F) OR (val AND 0x7F)
                 else (ier v AND 0x7F) AND NOT val)"
    using c by (simp add: v2)
  have p2b: "ier v2 AND 0x80 = 0" "ifr v2 = ifr v"
    by (simp_all add: v2 low7_bit7)
  note p2 = conjI [OF p2a conjI [OF p2b]]
  from p1 p2 show ?thesis
    unfolding a b r1 r2 by blast
qed

text \<open>The theorem at IFR = 0x60, IER = 0x03, for the values 0x40, 0xC0 and 0x01.\<close>

theorem poke_IFR_clears_and_IER_sets_or_clears_witness:
  "ifr flags_via AND 0x80 = 0 \<and>
   (\<exists>v' d'. poke Via1 0xD 0x40 (flags_via, drive0) = Inr (v', d') \<and>
       ifr v' = 0x20 \<and> ifr v' AND 0x80 = 0 \<and> ier v' = 0x03) \<and>
   (\<exists>v' d'. poke Via1 0xE 0xC0 (flags_via, drive0) = Inr (v', d') \<and> ier v' = 0x43) \<and>
   (\<exists>v' d'. poke Via2 0xE 0x01 (flags_via, drive0) = Inr (v', d') \<and> ier v' = 0x02)"
proof -
  have f: "ifr flags_via = 0x60" "ier flags_via = 0x03"
    by (simp_all add: flags_via_def via_cleared_def)
  have z: "ifr flags_via AND 0x80 = 0"
    by (simp add: f)
  from poke_IFR_clears_and_IER_sets_or_clears [of Via1 "0x40" flags_via drive0] z
  have a: "\<exists>v' d'. poke Via1 0xD 0x40 (flags_via, drive0) = Inr (v', d') \<and>
       ifr v' = 0x20 \<and> ifr v' AND 0x80 = 0 \<and> ier v' = 0x03"
    by (auto simp: f)
  from poke_IFR_clears_and_IER_sets_or_clears [of Via1 "0xC0" flags_via drive0]
  have b: "\<exists>v' d'. poke Via1 0xE 0xC0 (flags_via, drive0) = Inr (v', d') \<and> ier v' = 0x43"
    by (auto simp: f)
  from poke_IFR_clears_and_IER_sets_or_clears [of Via2 "0x01" flags_via drive0]
  have c: "\<exists>v' d'. poke Via2 0xE 0x01 (flags_via, drive0) = Inr (v', d') \<and> ier v' = 0x02"
    by (auto simp: f)
  from z a b c show ?thesis by blast
qed

subsection \<open>The stepper motor bits of VIA 2\<close>

lemma and_3_cases: "x AND 3 = 0 \<or> x AND 3 = 1 \<or> x AND 3 = 2 \<or> x AND 3 = (3 :: u8)"
proof -
  have "x AND 3 \<le> 3" by (rule word_and_le1)
  then have "unat (x AND 3) \<le> 3" by (simp add: word_le_nat_alt)
  then have "unat (x AND 3) = 0 \<or> unat (x AND 3) = 1 \<or> unat (x AND 3) = 2 \<or> unat (x AND 3) = 3"
    by arith
  then show ?thesis
    by (auto simp: word_unat_eq_iff)
qed

lemma and_3_take_bit: "x AND 3 = take_bit 2 (x :: u8)"
  by (simp add: take_bit_eq_mask mask_eq_exp_minus_1)

lemma unat_and_3: "unat (y AND 3 :: u8) = unat y mod 4"
  by (simp add: and_3_take_bit take_bit_eq_mod unat_mod)

lemma mod_256_mod_4: "(a :: nat) mod 256 mod 4 = a mod 4"
  by (rule mod_mod_cancel) simp

lemma stepper_up: "x AND 3 = 0 \<Longrightarrow> (x + 1) AND 3 = (1 :: u8)"
proof -
  assume "x AND 3 = 0"
  then have "unat (x AND 3) = 0" by simp
  then have z: "unat x mod 4 = 0" by (simp only: unat_and_3)
  have "unat (x + 1) = (unat x + 1) mod 256"
    by (simp add: unat_word_ariths)
  then have "unat ((x + 1) AND 3) = (unat x + 1) mod 256 mod 4"
    by (simp only: unat_and_3)
  also have "\<dots> = (unat x mod 4 + 1) mod 4"
    by (simp only: mod_256_mod_4 mod_add_left_eq)
  also have "\<dots> = 1" by (simp add: z)
  finally show ?thesis by (simp add: word_unat_eq_iff)
qed

lemma stepper_down: "x AND 3 = 0 \<Longrightarrow> (x - 1) AND 3 = (3 :: u8)"
proof -
  assume "x AND 3 = 0"
  then have "unat (x AND 3) = 0" by simp
  then have z: "unat x mod 4 = 0" by (simp only: unat_and_3)
  have m: "x - 1 = x + 255" by simp
  have "unat (x + 255) = (unat x + 255) mod 256"
    by (simp add: unat_word_ariths)
  then have "unat ((x + 255) AND 3) = (unat x + 255) mod 256 mod 4"
    by (simp only: unat_and_3)
  also have "\<dots> = (unat x mod 4 + 255) mod 4"
    by (simp only: mod_256_mod_4 mod_add_left_eq)
  also have "\<dots> = 3" by (simp add: z)
  finally show ?thesis by (simp add: word_unat_eq_iff m)
qed

lemma VIA2_updatePB_counts:
  "pb (fst (VIA2_updatePB (v, d))) = VIA2_new_pb v d (orb v) \<and>
   count_list (calls (snd (VIA2_updatePB (v, d)))) MoveHeadUp =
     count_list (calls d) MoveHeadUp +
       (if VIA2_new_pb v d (orb v) AND 3 \<noteq> pb v AND 3 \<and>
           VIA2_new_pb v d (orb v) AND 3 = (pb v + 1) AND 3 then 1 else 0) \<and>
   count_list (calls (snd (VIA2_updatePB (v, d)))) MoveHeadDown =
     count_list (calls d) MoveHeadDown +
       (if VIA2_new_pb v d (orb v) AND 3 \<noteq> pb v AND 3 \<and>
           VIA2_new_pb v d (orb v) AND 3 \<noteq> (pb v + 1) AND 3 \<and>
           VIA2_new_pb v d (orb v) AND 3 = (pb v - 1) AND 3 then 1 else 0) \<and>
   count_list (calls (snd (VIA2_updatePB (v, d)))) stepper_warning =
     count_list (calls d) stepper_warning +
       (if VIA2_new_pb v d (orb v) AND 3 \<noteq> pb v AND 3 \<and>
           VIA2_new_pb v d (orb v) AND 3 \<noteq> (pb v + 1) AND 3 \<and>
           VIA2_new_pb v d (orb v) AND 3 \<noteq> (pb v - 1) AND 3 then 1 else 0)"
  by (simp add: VIA2_new_pb_def stepper_warning_def call_out_def Let_def)

lemma VIA2_poke_portB:
  "\<exists>w. poke Via2 0x0 val (v, d) = Inr (VIA2_updatePB (w\<lparr>orb := val\<rparr>, d)) \<and>
       pb w = pb v \<and> ddrb w = ddrb v"
proof -
  let ?w1 = "clearInterruptFlag_CB1 v"
  let ?w2 = "if shouldClearCB2onWrite ?w1 then clearInterruptFlag_CB2 ?w1 else ?w1"
  have "poke Via2 0x0 val (v, d) = Inr (VIA2_updatePB (?w2\<lparr>orb := val\<rparr>, d))"
    by (simp add: poke_def Let_def del: VIA2_updatePB.simps)
  moreover have "pb ?w2 = pb v" "ddrb ?w2 = ddrb v"
    by (simp_all add: clearInterruptFlag_CB1_def clearInterruptFlag_CB2_def)
  ultimately show ?thesis by blast
qed

text \<open>
  C9. On a VIA 2 whose port B has bits 0-1 at 0b00, a poke to address 0x0 after which
  port B has bits 0-1 at \<open>b \<noteq> 0\<close> returns normally and adds to the calls made: for
  \<open>b = 0b01\<close> exactly one \<open>moveHeadUp\<close>, no \<open>moveHeadDown\<close> and no warning; for
  \<open>b = 0b11\<close> exactly one \<open>moveHeadDown\<close>, no \<open>moveHeadUp\<close> and no warning; for
  \<open>b = 0b10\<close> exactly one warning of an unexpected sequence and neither head move.
\<close>

theorem VIA2_poke_portB_stepper:
  assumes "pb v AND 0x03 = 0" and "VIA2_new_pb v d val AND 0x03 = b" and "b \<noteq> 0"
  shows "\<exists>v' d'. poke Via2 0x0 val (v, d) = Inr (v', d') \<and> pb v' = VIA2_new_pb v d val \<and>
     count_list (calls d') MoveHeadUp =
       count_list (calls d) MoveHeadUp + (if b = 1 then 1 else 0) \<and>
     count_list (calls d') MoveHeadDown =
       count_list (calls d) MoveHeadDown + (if b = 3 then 1 else 0) \<and>
     count_list (calls d') stepper_warning =
       count_list (calls d) stepper_warning + (if b = 2 then 1 else 0)"
proof -
  from VIA2_poke_portB [of val v d] obtain w
    where p: "poke Via2 0x0 val (v, d) = Inr (VIA2_updatePB (w\<lparr>orb := val\<rparr>, d))"
      and w: "pb w = pb v" "ddrb w = ddrb v"
    by blast
  let ?w = "w\<lparr>orb := val\<rparr>"
  have new: "VIA2_new_pb ?w d (orb ?w) = VIA2_new_pb v d val"
    by (simp add: VIA2_new_pb_def w)
  have old: "pb ?w AND 3 = 0" "(pb ?w + 1) AND 3 = 1" "(pb ?w - 1) AND 3 = 3"
    using assms(1) by (simp_all add: w stepper_up stepper_down)
  from and_3_cases [of "VIA2_new_pb v d val"] assms(2,3)
  have b: "b = 1 \<or> b = 2 \<or> b = 3" by auto
  note c = VIA2_updatePB_counts [of ?w d, unfolded new old assms(2)]
  obtain v' d' where r: "VIA2_updatePB (?w, d) = (v', d')" by (cases "VIA2_updatePB (?w, d)")
  from b c show ?thesis
    unfolding p r by auto
qed

text \<open>The theorem at a VIA 2 with port B all output, for the written values 1, 3 and 2.\<close>

theorem VIA2_poke_portB_stepper_witness:
  "pb stepper_via AND 0x03 = 0 \<and>
   VIA2_new_pb stepper_via drive0 0x01 AND 0x03 = 1 \<and>
   VIA2_new_pb stepper_via drive0 0x03 AND 0x03 = 3 \<and>
   VIA2_new_pb stepper_via drive0 0x02 AND 0x03 = 2 \<and>
   (\<exists>v' d'. poke Via2 0x0 0x01 (stepper_via, drive0) = Inr (v', d') \<and>
      count_list (calls d') MoveHeadUp = 1 \<and> count_list (calls d') MoveHeadDown = 0 \<and>
      count_list (calls d') stepper_warning = 0) \<and>
   (\<exists>v' d'. poke Via2 0x0 0x03 (stepper_via, drive0) = Inr (v', d') \<and>
      count_list (calls d') MoveHeadUp = 0 \<and> count_list (calls d') MoveHeadDown = 1 \<and>
      count_list (calls d') stepper_warning = 0) \<and>
   (\<exists>v' d'. poke Via2 0x0 0x02 (stepper_via, drive0) = Inr (v', d') \<and>
      count_list (calls d') MoveHeadUp = 0 \<and> count_list (calls d') MoveHeadDown = 0 \<and>
      count_list (calls d') stepper_warning = 1)"
proof -
  have old: "pb stepper_via AND 0x03 = 0"
    by (simp add: stepper_via_def via_cleared_def)
  have n1: "VIA2_new_pb stepper_via drive0 0x01 AND 0x03 = 1"
    and n3: "VIA2_new_pb stepper_via drive0 0x03 AND 0x03 = 3"
    and n2: "VIA2_new_pb stepper_via drive0 0x02 AND 0x03 = 2"
    by (simp_all add: VIA2_new_pb_def VIA2_portBexternal_def drive0_def stepper_via_def via_cleared_def)
  have nz: "(1 :: u8) \<noteq> 0" "(3 :: u8) \<noteq> 0" "(2 :: u8) \<noteq> 0" by simp_all
  have e: "calls drive0 = []" by (simp add: drive0_def)
  from VIA2_poke_portB_stepper [OF old n1 nz(1)]
  have a: "\<exists>v' d'. poke Via2 0x0 0x01 (stepper_via, drive0) = Inr (v', d') \<and>
      count_list (calls d') MoveHeadUp = 1 \<and> count_list (calls d') MoveHeadDown = 0 \<and>
      count_list (calls d') stepper_warning = 0"
    by (auto simp: e)
  from VIA2_poke_portB_stepper [OF old n3 nz(2)]
  have b: "\<exists>v' d'. poke Via2 0x0 0x03 (stepper_via, drive0) = Inr (v', d') \<and>
      count_list (calls d') MoveHeadUp = 0 \<and> count_list (calls d') MoveHeadDown = 1 \<and>
      count_list (calls d') stepper_warning = 0"
    by (auto simp: e)
  from VIA2_poke_portB_stepper [OF old n2 nz(3)]
  have c: "\<exists>v' d'. poke Via2 0x0 0x02 (stepper_via, drive0) = Inr (v', d') \<and>
      count_list (calls d') MoveHeadUp = 0 \<and> count_list (calls d') MoveHeadDown = 0 \<and>
      count_list (calls d') stepper_warning = 1"
    by (auto simp: e)
  from old n1 n2 n3 a b c show ?thesis by blast
qed

subsection \<open>Bit 7 of the stored IFR and IER\<close>

text \<open>
  \<open>flags_ok\<close> holds after \<^verbatim>\<open>reset\<close> and is kept by \<^verbatim>\<open>execute\<close>, by \<^verbatim>\<open>setCA1\<close> and
  \<^verbatim>\<open>setCB1\<close>, and by every \<^verbatim>\<open>poke\<close> of either class that returns: no code path stores
  a 1 in bit 7 of IFR or IER.
\<close>

lemma clear_keeps_bit7: "x AND 0x80 = 0 \<Longrightarrow> (x AND y) AND 0x80 = (0 :: u8)"
proof -
  assume a: "x AND 0x80 = 0"
  have "(x AND y) AND 0x80 = (x AND 0x80) AND y"
    by (simp add: and.assoc and.commute and.left_commute)
  with a show ?thesis by simp
qed

lemma flags_ok_reset: "flags_ok (reset v)"
  by (simp add: flags_ok_def reset_def via_cleared_def)

lemma flags_ok_executeTimer1: "flags_ok v \<Longrightarrow> flags_ok (executeTimer1 v)"
  by (simp add: flags_ok_def executeTimer1_def Let_def SET_BIT_def or_and_other)

lemma flags_ok_executeTimer2: "flags_ok v \<Longrightarrow> flags_ok (executeTimer2 v)"
  by (simp add: flags_ok_def executeTimer2_def Let_def SET_BIT_def or_and_other)

lemma flags_ok_timers: "flags_ok v \<Longrightarrow> flags_ok (executeTimer2 (executeTimer1 v))"
  by (simp add: flags_ok_executeTimer1 flags_ok_executeTimer2)

lemma flags_ok_execute:
  assumes "flags_ok v"
  shows "flags_ok (fst (execute (v, d)))"
proof -
  have "ifr (fst (execute (v, d))) = ifr (executeTimer2 (executeTimer1 v))"
    by (simp add: execute_frame)
  moreover have "ier (fst (execute (v, d))) = ier (executeTimer2 (executeTimer1 v))"
    by (simp add: execute.simps Let_def)
  ultimately show ?thesis
    using flags_ok_timers [OF assms] by (simp add: flags_ok_def)
qed

lemma flags_ok_setCA1: "flags_ok v \<Longrightarrow> flags_ok (setCA1 val v)"
  by (simp add: flags_ok_def setCA1_def Let_def or_and_other)

lemma flags_ok_setCB1: "flags_ok v \<Longrightarrow> flags_ok (setCB1 val v)"
  by (simp add: flags_ok_def setCB1_def Let_def or_and_other)

lemma VIA2_updatePB_via:
  "fst (VIA2_updatePB (v, d)) = v\<lparr>pb := (orb v AND ddrb v) OR (VIA2_portBexternal d AND NOT (ddrb v))\<rparr>"
  by (simp add: Let_def split del: if_split)

lemma updatePB_flags:
  "ifr (fst (updatePB k (v, d))) = ifr v \<and> ier (fst (updatePB k (v, d))) = ier v"
  by (cases k) (simp_all add: updatePB_def VIA2_updatePB_via del: VIA2_updatePB.simps)

lemma IRQ_eq:
  "IRQ (v, d) =
     (ifr v AND ier v \<noteq> 0, v,
      call_out (if ifr v AND ier v \<noteq> 0 then PullDownIrqLine CPU_VIA else ReleaseIrqLine CPU_VIA) d)"
  by simp

lemmas clear_flag_defs =
  clearInterruptFlag_T1_def clearInterruptFlag_T2_def clearInterruptFlag_CB1_def
  clearInterruptFlag_CB2_def clearInterruptFlag_SR_def clearInterruptFlag_CA1_def
  clearInterruptFlag_CA2_def

lemma updatePB_ok:
  assumes "flags_ok v" and "updatePB k (v, d) = (v', d')"
  shows "flags_ok v'"
  using assms updatePB_flags [of k v d] by (simp add: flags_ok_def)

lemma VIA6522_poke_ok:
  assumes "flags_ok v" and "VIA6522_poke k addr val (v, d) = Inr (v', d')"
  shows "flags_ok v'"
proof (cases "addr \<le> 0xF")
  case True
  from assms(1) have a: "ifr v AND 0x80 = 0" "ier v AND 0x80 = 0"
    by (simp_all add: flags_ok_def)
  have pb: "flags_ok (v\<lparr>ddrb := val\<rparr>)"
    using assms(1) by (simp add: flags_ok_def)
  from register_address_cases [OF True] assms(2) a updatePB_ok [OF pb, of k d v' d'] show ?thesis
    by (elim disjE)
       (auto simp: flags_ok_def Let_def clear_flag_defs updatePA_def IRQ_eq
          clear_keeps_bit7 low7_bit7
          simp del: IRQ.simps split: if_splits)
next
  case False
  with assms(2) show ?thesis by simp
qed


lemma VIA1_updatePB_ok:
  assumes "flags_ok v" and "VIA1_updatePB (v, d) = (v', d')"
  shows "flags_ok v'"
  using updatePB_ok [OF assms(1), of Via1 d v' d'] assms(2)
  by (simp add: updatePB_def del: VIA1_updatePB.simps)

lemma VIA2_updatePB_ok:
  assumes "flags_ok v" and "VIA2_updatePB (v, d) = (v', d')"
  shows "flags_ok v'"
  using updatePB_ok [OF assms(1), of Via2 d v' d'] assms(2)
  by (simp add: updatePB_def del: VIA2_updatePB.simps)

lemma flags_ok_orb: "flags_ok v \<Longrightarrow> flags_ok (v\<lparr>orb := x\<rparr>)"
  by (simp add: flags_ok_def)

lemma flags_ok_ora: "flags_ok v \<Longrightarrow> flags_ok (updatePA k (v\<lparr>ora := x\<rparr>))"
  by (simp add: flags_ok_def updatePA_def)

lemma flags_ok_ddrb: "flags_ok v \<Longrightarrow> flags_ok (v\<lparr>ddrb := x\<rparr>)"
  by (simp add: flags_ok_def)

lemma VIA1_poke_ok:
  assumes "flags_ok v" and "VIA1_poke addr val (v, d) = Inr (v', d')"
  shows "flags_ok v'"
proof -
  consider "addr = 0x0" | "addr = 0x1 \<or> addr = 0xF" | "addr = 0x2"
    | "addr \<noteq> 0x0" "\<not> (addr = 0x1 \<or> addr = 0xF)" "addr \<noteq> 0x2"
    by blast
  then show ?thesis
  proof cases
    case 1
    with assms(2) obtain v1 d1 v2 d2 where
      p: "VIA6522_poke Via1 addr val (v, d) = Inr (v1, d1)"
      and u: "VIA1_updatePB (v1\<lparr>orb := val\<rparr>, d1) = (v2, d2)" and e: "v' = v2"
      by (auto simp del: VIA6522_poke.simps VIA1_updatePB.simps split: sum.splits prod.splits)
    from VIA6522_poke_ok [OF assms(1) p] have "flags_ok (v1\<lparr>orb := val\<rparr>)"
      by (rule flags_ok_orb)
    from VIA1_updatePB_ok [OF this u] e show ?thesis by simp
  next
    case 2
    with assms(2) obtain v1 d1 where
      p: "VIA6522_poke Via1 addr val (v, d) = Inr (v1, d1)"
      and e: "v' = updatePA Via1 (v1\<lparr>ora := val\<rparr>)"
      by (auto simp del: VIA6522_poke.simps split: sum.splits prod.splits)
    from VIA6522_poke_ok [OF assms(1) p] e show ?thesis
      by (simp add: flags_ok_ora)
  next
    case 3
    with assms(2) obtain v2 d2 where
      u: "VIA1_updatePB (v\<lparr>ddrb := val\<rparr>, d) = (v2, d2)" and e: "v' = v2"
      by (auto simp del: VIA1_updatePB.simps split: prod.splits)
    from VIA1_updatePB_ok [OF flags_ok_ddrb [OF assms(1)] u] e show ?thesis by simp
  next
    case 4
    with assms(2) have "VIA6522_poke Via1 addr val (v, d) = Inr (v', d')"
      by (simp del: VIA6522_poke.simps)
    from VIA6522_poke_ok [OF assms(1) this] show ?thesis .
  qed
qed

lemma VIA2_poke_ok:
  assumes "flags_ok v" and "VIA2_poke addr val (v, d) = Inr (v', d')"
  shows "flags_ok v'"
proof -
  consider "addr = 0x0" | "addr = 0x1 \<or> addr = 0xF" | "addr = 0x3" | "addr = 0xC"
    | "addr \<noteq> 0x0" "\<not> (addr = 0x1 \<or> addr = 0xF)" "addr \<noteq> 0x3" "addr \<noteq> 0xC"
    by blast
  then show ?thesis
  proof cases
    case 1
    with assms(2) obtain v1 d1 where
      p: "VIA6522_poke Via2 addr val (v, d) = Inr (v1, d1)"
      and u: "VIA2_updatePB (v1\<lparr>orb := val\<rparr>, d1) = (v', d')"
      by (auto simp del: VIA6522_poke.simps VIA2_updatePB.simps split: sum.splits prod.splits)
    from VIA6522_poke_ok [OF assms(1) p] have "flags_ok (v1\<lparr>orb := val\<rparr>)"
      by (rule flags_ok_orb)
    from VIA2_updatePB_ok [OF this u] show ?thesis .
  next
    case 2
    with assms(2) obtain v1 d1 where
      p: "VIA6522_poke Via2 addr val (v, d) = Inr (v1, d1)"
      and e: "v' = updatePA Via2 (v1\<lparr>ora := val\<rparr>)"
      by (auto simp del: VIA6522_poke.simps split: sum.splits prod.splits)
    from VIA6522_poke_ok [OF assms(1) p] e show ?thesis
      by (simp add: flags_ok_ora)
  next
    case 3
    with assms show ?thesis
      by (auto simp: flags_ok_def simp del: VIA6522_poke.simps)
  next
    case 4
    with assms show ?thesis
      by (auto simp: flags_ok_def simp del: VIA6522_poke.simps)
  next
    case 5
    with assms(2) have "VIA6522_poke Via2 addr val (v, d) = Inr (v', d')"
      by (simp del: VIA6522_poke.simps)
    from VIA6522_poke_ok [OF assms(1) this] show ?thesis .
  qed
qed

lemma poke_ok:
  assumes "flags_ok v" and "poke k addr val (v, d) = Inr (v', d')"
  shows "flags_ok v'"
  using assms VIA1_poke_ok [of v addr val d v' d'] VIA2_poke_ok [of v addr val d v' d']
  by (cases k) (simp_all add: poke_def del: VIA1_poke.simps VIA2_poke.simps)

lemma flags_ok_cycles: "flags_ok (fst s) \<Longrightarrow> flags_ok (fst (cycles n s))"
proof (induction n arbitrary: s)
  case 0
  then show ?case by simp
next
  case (Suc n)
  obtain v d where s: "s = (v, d)" by (cases s)
  with Suc.prems have "flags_ok (fst (execute s))"
    by (simp add: flags_ok_execute)
  from Suc.IH [OF this] show ?case by simp
qed

lemma flags_ok_pokes:
  "flags_ok (fst s) \<Longrightarrow> pokes k ps s = Inr s' \<Longrightarrow> flags_ok (fst s')"
proof (induction ps arbitrary: s)
  case Nil
  then show ?case by simp
next
  case (Cons p ps)
  obtain addr val where p: "p = (addr, val)" by (cases p)
  obtain v d where s: "s = (v, d)" by (cases s)
  from Cons.prems(2) p obtain s1 where
    a: "poke k addr val s = Inr s1" and b: "pokes k ps s1 = Inr s'"
    by (auto split: sum.splits)
  obtain v1 d1 where s1: "s1 = (v1, d1)" by (cases s1)
  from Cons.prems(1) s have "flags_ok v" by simp
  from poke_ok [OF this] a s s1 have "flags_ok (fst s1)" by simp
  from Cons.IH [OF this b] show ?case .
qed

end
